theory Spec2Isabelle
  imports Complex_Main
begin

section \<open>Knowledge-graph viewer: graph construction and force-directed layout\<close>

text \<open>
  A shallow embedding of \<^verbatim>\<open>calculateNodePositions\<close> and of the graph construction inside
  the \<^verbatim>\<open>GraphViewer\<close> component.

  Conventions of the embedding.
  \<^item> A number of the layout is a real or NaN. Rounding and the infinities are not modelled:
    a result that overflows in double precision is a real here. A probability or weight
    of the graph construction is a real.
  \<^item> The objects \<^verbatim>\<open>positions\<close> and \<^verbatim>\<open>forces\<close> are plain objects used as
    dictionaries. They are modelled with their own properties and their prototype: a key
    that is not an own property is looked up in the prototype chain, where the members of
    \<^verbatim>\<open>Object.prototype\<close> are found, and an assignment to the key \<^verbatim>\<open>__proto__\<close>
    replaces the prototype instead of creating a property.
  \<^item> A field that may be missing is an \<open>option\<close>; \<open>None\<close> is \<^verbatim>\<open>undefined\<close>.
    Reading a property of \<^verbatim>\<open>undefined\<close> throws, which is the value \<open>Inl TypeError\<close>.
  \<^item> The file is an ES module, so its code is strict: storing a property on a number
    throws a TypeError as well.
\<close>

subsection \<open>Data\<close>

datatype error = TypeError

record node =
  n_id :: "string option"
  n_label :: "string option"
  n_type :: "string option"
  n_level :: "nat option"
  n_probability :: "real option"

record edge =
  e_source :: "string option"
  e_target :: "string option"
  e_type :: "string option"
  e_weight :: "real option"

text \<open>A value used as a property key is converted to a string: \<^verbatim>\<open>undefined\<close> becomes
  the key \<^verbatim>\<open>"undefined"\<close>.\<close>

definition propKey :: "string option \<Rightarrow> string" where
  "propKey v = (case v of None \<Rightarrow> ''undefined'' | Some s \<Rightarrow> s)"

text \<open>\<^verbatim>\<open>forEach\<close> with a body that may throw: the first exception ends the loop.\<close>

fun forEachE :: "('a \<Rightarrow> 's \<Rightarrow> error + 's) \<Rightarrow> 'a list \<Rightarrow> 's \<Rightarrow> error + 's" where
  "forEachE f [] s = Inr s"
| "forEachE f (a # as) s = (case f a s of Inl e \<Rightarrow> Inl e | Inr s' \<Rightarrow> forEachE f as s')"

subsection \<open>Numbers with NaN\<close>

text \<open>Every arithmetic operator and \<^verbatim>\<open>Math.sqrt\<close>, \<^verbatim>\<open>Math.min\<close>, \<^verbatim>\<open>Math.max\<close>
  give NaN when an operand is NaN; a comparison with NaN is false; NaN and 0 are falsy.
  The operators used by the layout treat an operand \<^verbatim>\<open>undefined\<close> as NaN. No divisor
  of the layout is 0: the divisors are 2, \<^verbatim>\<open>Math.max(n, 1)\<close>, a distance after
  \<^verbatim>\<open>|| 1\<close> and the square of a distance that is not below 120.\<close>

datatype num = Num real | NaN

definition arith :: "(real \<Rightarrow> real \<Rightarrow> real) \<Rightarrow> num \<Rightarrow> num \<Rightarrow> num" where
  "arith f a b =
     (case a of NaN \<Rightarrow> NaN | Num x \<Rightarrow> (case b of NaN \<Rightarrow> NaN | Num y \<Rightarrow> Num (f x y)))"

definition nsqrt :: "num \<Rightarrow> num" where
  "nsqrt a = (case a of NaN \<Rightarrow> NaN | Num x \<Rightarrow> Num (sqrt x))"

text \<open>\<^verbatim>\<open>v || 1\<close>\<close>

definition orOne :: "num \<Rightarrow> num" where
  "orOne a = (case a of NaN \<Rightarrow> Num 1 | Num x \<Rightarrow> if x = 0 then Num 1 else Num x)"

definition nless :: "num \<Rightarrow> num \<Rightarrow> bool" where
  "nless a b = (case a of NaN \<Rightarrow> False | Num x \<Rightarrow> (case b of NaN \<Rightarrow> False | Num y \<Rightarrow> x < y))"

record vec =
  vx :: num
  vy :: num

subsection \<open>Plain objects used as dictionaries\<close>

text \<open>The property names of \<^verbatim>\<open>Object.prototype\<close>. All are functions but
  \<^verbatim>\<open>__proto__\<close>, an accessor that reads and replaces the prototype of the object it is
  used on.\<close>

definition objectPrototypeNames :: "string list" where
  "objectPrototypeNames =
     [''constructor'', ''hasOwnProperty'', ''isPrototypeOf'', ''propertyIsEnumerable'',
      ''toLocaleString'', ''toString'', ''valueOf'', ''__defineGetter__'',
      ''__defineSetter__'', ''__lookupGetter__'', ''__lookupSetter__'', ''__proto__'']"

text \<open>An object created by \<^verbatim>\<open>{}\<close> whose properties hold \<^verbatim>\<open>{x, y}\<close> objects: its
  own properties, and the \<^verbatim>\<open>{x, y}\<close> object that has replaced its prototype, if one
  has (\<open>None\<close>: the prototype is \<^verbatim>\<open>Object.prototype\<close>).\<close>

record dictObj =
  own :: "string \<rightharpoonup> vec"
  proto :: "vec option"

definition emptyObj :: dictObj where
  "emptyObj = \<lparr>own = Map.empty, proto = None\<rparr>"

text \<open>What \<^verbatim>\<open>obj[k]\<close> evaluates to: \<^verbatim>\<open>undefined\<close>; an \<^verbatim>\<open>{x, y}\<close> object, own
  or the replaced prototype itself; a member of \<^verbatim>\<open>Object.prototype\<close> (or that object,
  for the key \<^verbatim>\<open>__proto__\<close>), which is truthy and has no \<^verbatim>\<open>x\<close> or \<^verbatim>\<open>y\<close>; or a
  number, the \<^verbatim>\<open>x\<close> or \<^verbatim>\<open>y\<close> of a replaced prototype.\<close>

datatype entry = Undefined | Entry vec | Inherited | Prim num

definition getEntry :: "dictObj \<Rightarrow> string \<Rightarrow> entry" where
  "getEntry obj k =
     (case own obj k of
        Some v \<Rightarrow> Entry v
      | None \<Rightarrow>
         if k = ''__proto__'' then (case proto obj of None \<Rightarrow> Inherited | Some p \<Rightarrow> Entry p)
         else
           (case proto obj of
              None \<Rightarrow> if k \<in> set objectPrototypeNames then Inherited else Undefined
            | Some p \<Rightarrow>
                if k = ''x'' then Prim (vx p)
                else if k = ''y'' then Prim (vy p)
                else if k \<in> set objectPrototypeNames then Inherited
                else Undefined))"

text \<open>\<^verbatim>\<open>obj[k] = {x: ..., y: ...}\<close>, and the update in place of the object found under
  \<open>k\<close>, which is stored in the same place.\<close>

definition setEntry :: "string \<Rightarrow> vec \<Rightarrow> dictObj \<Rightarrow> dictObj" where
  "setEntry k v obj =
     (if k = ''__proto__'' then obj\<lparr>proto := Some v\<rparr> else obj\<lparr>own := (own obj)(k \<mapsto> v)\<rparr>)"

definition truthy :: "entry \<Rightarrow> bool" where
  "truthy e =
     (case e of
        Undefined \<Rightarrow> False
      | Entry v \<Rightarrow> True
      | Inherited \<Rightarrow> True
      | Prim n \<Rightarrow> (case n of NaN \<Rightarrow> False | Num r \<Rightarrow> r \<noteq> 0))"

text \<open>\<^verbatim>\<open>e.x\<close> and \<^verbatim>\<open>e.y\<close> as operands: the number of an \<^verbatim>\<open>{x, y}\<close> object,
  \<^verbatim>\<open>undefined\<close> otherwise. The only thing the layout ever stores under \<^verbatim>\<open>x\<close> or
  \<^verbatim>\<open>y\<close> of a member of \<^verbatim>\<open>Object.prototype\<close> is NaN (see \<open>addForce\<close>), which as an
  operand acts as \<^verbatim>\<open>undefined\<close> does.\<close>

definition xOf :: "entry \<Rightarrow> num" where
  "xOf e = (case e of Entry v \<Rightarrow> vx v | _ \<Rightarrow> NaN)"

definition yOf :: "entry \<Rightarrow> num" where
  "yOf e = (case e of Entry v \<Rightarrow> vy v | _ \<Rightarrow> NaN)"

subsection \<open>The layout: \<^verbatim>\<open>calculateNodePositions\<close>\<close>

text \<open>Degrees. \<^verbatim>\<open>degrees\<close> is a plain object too; its values are numbers, or the
  string that \<^verbatim>\<open>(degrees[k] || 0) + 1\<close> gives when \<^verbatim>\<open>degrees[k]\<close> is an inherited
  function. An assignment of a number or a string to the key \<^verbatim>\<open>__proto__\<close> changes
  nothing. The object \<^verbatim>\<open>nodeMap\<close> is filled and never read; it has no counterpart
  here.\<close>

datatype degree = Count nat | Text

definition setDegree :: "string \<Rightarrow> degree \<Rightarrow> (string \<rightharpoonup> degree) \<Rightarrow> (string \<rightharpoonup> degree)" where
  "setDegree k d degrees = (if k = ''__proto__'' then degrees else degrees(k \<mapsto> d))"

definition initDegrees :: "node list \<Rightarrow> (string \<rightharpoonup> degree)" where
  "initDegrees nodes = fold (\<lambda>node. setDegree (propKey (n_id node)) (Count 0)) nodes Map.empty"

definition incDegree :: "string \<Rightarrow> (string \<rightharpoonup> degree) \<Rightarrow> (string \<rightharpoonup> degree)" where
  "incDegree k degrees =
     setDegree k
       (case degrees k of
          Some (Count c) \<Rightarrow> Count (c + 1)
        | Some Text \<Rightarrow> Text
        | None \<Rightarrow> if k \<in> set objectPrototypeNames then Text else Count 1)
       degrees"

definition countDegrees :: "node list \<Rightarrow> edge list \<Rightarrow> (string \<rightharpoonup> degree)" where
  "countDegrees nodes edges =
     fold (\<lambda>edge degrees.
             incDegree (propKey (e_target edge)) (incDegree (propKey (e_source edge)) degrees))
       edges (initDegrees nodes)"

text \<open>The centre: \<^verbatim>\<open>nodes[0]?.id\<close> to start with, replaced by each node whose degree
  is strictly above the maximum seen so far. Only a number can be above it: a string of
  the kind above and an inherited member compare as NaN.\<close>

definition firstId :: "node list \<Rightarrow> string option" where
  "firstId nodes = (case nodes of [] \<Rightarrow> None | n # _ \<Rightarrow> n_id n)"

definition findCenter :: "node list \<Rightarrow> (string \<rightharpoonup> degree) \<Rightarrow> string option" where
  "findCenter nodes degrees =
     snd (fold (\<lambda>node (maxDegree, centerNodeId).
                  (case degrees (propKey (n_id node)) of
                     Some (Count d) \<Rightarrow>
                       if d > maxDegree then (d, n_id node) else (maxDegree, centerNodeId)
                   | _ \<Rightarrow> (maxDegree, centerNodeId)))
            nodes (0, firstId nodes))"

text \<open>Initial placement: the centre in the middle of the canvas, the other nodes on a
  circle, in list order.\<close>

definition placeOnCircle :: "real \<Rightarrow> real \<Rightarrow> real \<Rightarrow> real \<Rightarrow> nat \<times> node \<Rightarrow> dictObj \<Rightarrow> dictObj" where
  "placeOnCircle centerX centerY radius angleStep = (\<lambda>(index, node) positions.
     (let angle = real index * angleStep
      in setEntry (propKey (n_id node))
           \<lparr>vx = Num (centerX + radius * cos angle), vy = Num (centerY + radius * sin angle)\<rparr>
           positions))"

definition initialPositions :: "node list \<Rightarrow> edge list \<Rightarrow> real \<Rightarrow> real \<Rightarrow> dictObj" where
  "initialPositions nodes edges width height =
     (let centerNodeId = findCenter nodes (countDegrees nodes edges);
          centerX = width / 2;
          centerY = height / 2;
          radius = min width height * 0.4;
          otherNodes = filter (\<lambda>n. n_id n \<noteq> centerNodeId) nodes;
          angleStep = (2 * pi) / real (max (length otherNodes) 1)
      in fold (placeOnCircle centerX centerY radius angleStep) (enumerate 0 otherNodes)
           (setEntry (propKey centerNodeId) \<lparr>vx = Num centerX, vy = Num centerY\<rparr> emptyObj))"

text \<open>One relaxation round.

  \<^verbatim>\<open>forces[k].x += fx; forces[k].y += fy\<close> throws when \<^verbatim>\<open>forces[k]\<close> is undefined or a
  number. When \<^verbatim>\<open>forces[k]\<close> is a member of \<^verbatim>\<open>Object.prototype\<close> the two
  assignments store NaN (\<^verbatim>\<open>undefined + fx\<close>) on that member, outside \<^verbatim>\<open>forces\<close>.\<close>

definition zeroForces :: "node list \<Rightarrow> dictObj" where
  "zeroForces nodes =
     fold (\<lambda>node. setEntry (propKey (n_id node)) \<lparr>vx = Num 0, vy = Num 0\<rparr>) nodes emptyObj"

definition addForce :: "string \<Rightarrow> num \<Rightarrow> num \<Rightarrow> dictObj \<Rightarrow> error + dictObj" where
  "addForce k fx fy forces =
     (case getEntry forces k of
        Undefined \<Rightarrow> Inl TypeError
      | Prim n \<Rightarrow> Inl TypeError
      | Inherited \<Rightarrow> Inr forces
      | Entry f \<Rightarrow>
          Inr (setEntry k \<lparr>vx = arith (+) (vx f) fx, vy = arith (+) (vy f) fy\<rparr> forces))"

text \<open>\<^verbatim>\<open>forces[k].x -= fx; forces[k].y -= fy\<close>\<close>

definition subForce :: "string \<Rightarrow> num \<Rightarrow> num \<Rightarrow> dictObj \<Rightarrow> error + dictObj" where
  "subForce k fx fy forces =
     (case getEntry forces k of
        Undefined \<Rightarrow> Inl TypeError
      | Prim n \<Rightarrow> Inl TypeError
      | Inherited \<Rightarrow> Inr forces
      | Entry f \<Rightarrow>
          Inr (setEntry k \<lparr>vx = arith (-) (vx f) fx, vy = arith (-) (vy f) fy\<rparr> forces))"

text \<open>\<^verbatim>\<open>Math.sqrt(dx * dx + dy * dy) || 1\<close>\<close>

definition distanceOr1 :: "num \<Rightarrow> num \<Rightarrow> num" where
  "distanceOr1 dx dy = orOne (nsqrt (arith (+) (arith (*) dx dx) (arith (*) dy dy)))"

text \<open>The attraction along an edge. The edge is skipped when
  \<^verbatim>\<open>!source || !target\<close>.\<close>

definition attract :: "dictObj \<Rightarrow> edge \<Rightarrow> dictObj \<Rightarrow> error + dictObj" where
  "attract positions edge forces =
     (let source = getEntry positions (propKey (e_source edge));
          target = getEntry positions (propKey (e_target edge))
      in if truthy source \<and> truthy target then
           (let dx = arith (-) (xOf target) (xOf source);
                dy = arith (-) (yOf target) (yOf source);
                distance = distanceOr1 dx dy;
                targetDistance = Num 200;
                force = arith (*) (arith (-) distance targetDistance) (Num 0.005)
            in case addForce (propKey (e_source edge))
                      (arith (*) (arith (/) dx distance) force)
                      (arith (*) (arith (/) dy distance) force) forces of
                 Inl e \<Rightarrow> Inl e
               | Inr forces' \<Rightarrow>
                   subForce (propKey (e_target edge))
                     (arith (*) (arith (/) dx distance) force)
                     (arith (*) (arith (/) dy distance) force) forces')
         else Inr forces)"

text \<open>The repulsion between two nodes.\<close>

definition repel :: "dictObj \<Rightarrow> node \<Rightarrow> node \<Rightarrow> dictObj \<Rightarrow> error + dictObj" where
  "repel positions node1 node2 forces =
     (let pos1 = getEntry positions (propKey (n_id node1));
          pos2 = getEntry positions (propKey (n_id node2))
      in if truthy pos1 \<and> truthy pos2 then
           (let dx = arith (-) (xOf pos2) (xOf pos1);
                dy = arith (-) (yOf pos2) (yOf pos1);
                distance = distanceOr1 dx dy;
                minDistance = Num 120;
                force = (if nless distance minDistance
                         then arith (*) (arith (-) minDistance distance) (Num 2)
                         else arith (/) (Num 2000) (arith (*) distance distance))
            in case subForce (propKey (n_id node1))
                      (arith (*) (arith (/) dx distance) force)
                      (arith (*) (arith (/) dy distance) force) forces of
                 Inl e \<Rightarrow> Inl e
               | Inr forces' \<Rightarrow>
                   addForce (propKey (n_id node2))
                     (arith (*) (arith (/) dx distance) force)
                     (arith (*) (arith (/) dy distance) force) forces')
         else Inr forces)"

text \<open>\<^verbatim>\<open>nodes.forEach((node1, i) => nodes.slice(i + 1).forEach(node2 => ...))\<close>\<close>

fun repelAll :: "dictObj \<Rightarrow> node list \<Rightarrow> dictObj \<Rightarrow> error + dictObj" where
  "repelAll positions [] forces = Inr forces"
| "repelAll positions (node1 # rest) forces =
     (case forEachE (repel positions node1) rest forces of
        Inl e \<Rightarrow> Inl e
      | Inr forces' \<Rightarrow> repelAll positions rest forces')"

text \<open>\<^verbatim>\<open>Math.max(margin, Math.min(dimension - margin, v))\<close>\<close>

definition clamp :: "real \<Rightarrow> num \<Rightarrow> num" where
  "clamp dimension v = (let margin = 80 in arith max (Num margin) (arith min (Num (dimension - margin)) v))"

text \<open>The position update of a node. \<^verbatim>\<open>pos.x += force.x * 0.1\<close> reads
  \<^verbatim>\<open>force.x\<close>, which throws when \<^verbatim>\<open>force\<close> is undefined, and stores into
  \<^verbatim>\<open>pos\<close>, which throws when \<^verbatim>\<open>pos\<close> is a number and lands outside
  \<^verbatim>\<open>positions\<close> when \<^verbatim>\<open>pos\<close> is a member of \<^verbatim>\<open>Object.prototype\<close>.\<close>

definition applyForce :: "real \<Rightarrow> real \<Rightarrow> dictObj \<Rightarrow> node \<Rightarrow> dictObj \<Rightarrow> error + dictObj" where
  "applyForce width height forces node positions =
     (let force = getEntry forces (propKey (n_id node));
          pos = getEntry positions (propKey (n_id node))
      in if truthy pos then
           (case force of
              Undefined \<Rightarrow> Inl TypeError
            | _ \<Rightarrow>
               (case pos of
                  Entry p \<Rightarrow>
                    Inr (setEntry (propKey (n_id node))
                           \<lparr>vx = clamp width (arith (+) (vx p) (arith (*) (xOf force) (Num 0.1))),
                            vy = clamp height (arith (+) (vy p) (arith (*) (yOf force) (Num 0.1)))\<rparr>
                           positions)
                | Inherited \<Rightarrow> Inr positions
                | _ \<Rightarrow> Inl TypeError))
         else Inr positions)"

definition relaxOnce :: "node list \<Rightarrow> edge list \<Rightarrow> real \<Rightarrow> real \<Rightarrow> dictObj \<Rightarrow> error + dictObj" where
  "relaxOnce nodes edges width height positions =
     (case forEachE (attract positions) edges (zeroForces nodes) of
        Inl e \<Rightarrow> Inl e
      | Inr forces \<Rightarrow>
         (case repelAll positions nodes forces of
            Inl e \<Rightarrow> Inl e
          | Inr forces' \<Rightarrow> forEachE (applyForce width height forces') nodes positions))"

text \<open>\<^verbatim>\<open>for (let iter = 0; iter < 50; iter++)\<close>, as recursion on the rounds left.\<close>

fun relax :: "nat \<Rightarrow> node list \<Rightarrow> edge list \<Rightarrow> real \<Rightarrow> real \<Rightarrow> dictObj \<Rightarrow> error + dictObj" where
  "relax 0 nodes edges width height positions = Inr positions"
| "relax (Suc n) nodes edges width height positions =
     (case relaxOnce nodes edges width height positions of
        Inl e \<Rightarrow> Inl e
      | Inr positions' \<Rightarrow> relax n nodes edges width height positions')"

definition calculateNodePositions :: "node list \<Rightarrow> edge list \<Rightarrow> real \<Rightarrow> real \<Rightarrow> error + dictObj" where
  "calculateNodePositions nodes edges width height =
     relax 50 nodes edges width height (initialPositions nodes edges width height)"

text \<open>The dimensions the component lays out with. They start as 800 by 600, and
  \<^verbatim>\<open>updateDimensions\<close> sets them from the rectangle of the container to
  \<^verbatim>\<open>rect.width || 800\<close> and \<^verbatim>\<open>rect.height || 600\<close>; \<^verbatim>\<open>renderGraph\<close> passes them
  to the layout.\<close>

definition updateDimensions :: "real \<Rightarrow> real \<Rightarrow> real \<times> real" where
  "updateDimensions rectWidth rectHeight =
     (if rectWidth = 0 then 800 else rectWidth, if rectHeight = 0 then 600 else rectHeight)"

definition nodePositions :: "real \<times> real \<Rightarrow> node list \<Rightarrow> edge list \<Rightarrow> error + dictObj" where
  "nodePositions dimensions nodes edges =
     calculateNodePositions nodes edges (fst dimensions) (snd dimensions)"

subsection \<open>Strings\<close>

definition startsWith :: "string \<Rightarrow> string \<Rightarrow> bool" where
  "startsWith s p = (take (length p) s = p)"

text \<open>\<^verbatim>\<open>s.includes(sub)\<close>: \<open>sub\<close> occurs at some position of \<open>s\<close>.\<close>

fun str_includes :: "string \<Rightarrow> string \<Rightarrow> bool" where
  "str_includes [] sub = (sub = [])"
| "str_includes (c # cs) sub = (startsWith (c # cs) sub \<or> str_includes cs sub)"

text \<open>\<^verbatim>\<open>s.split(sep)\<close> for a one-character separator; the empty string gives one empty
  part.\<close>

fun split_str :: "char \<Rightarrow> string \<Rightarrow> string list" where
  "split_str sep [] = [[]]"
| "split_str sep (c # cs) =
     (if c = sep then [] # split_str sep cs
      else (case split_str sep cs of [] \<Rightarrow> [[c]] | p # ps \<Rightarrow> (c # p) # ps))"

fun join_str :: "string \<Rightarrow> string list \<Rightarrow> string" where
  "join_str sep [] = []"
| "join_str sep [p] = p"
| "join_str sep (p # q # ps) = p @ sep @ join_str sep (q # ps)"

text \<open>\<^verbatim>\<open>parts.slice(0, -1).join('.')\<close> of \<^verbatim>\<open>parts = id.split('.')\<close>\<close>

definition parentOf :: "string list \<Rightarrow> string" where
  "parentOf parts = join_str ''.'' (butlast parts)"

subsection \<open>The graph construction inside \<^verbatim>\<open>GraphViewer\<close>\<close>

record pred =
  p_code :: "string option"
  p_description :: "string option"
  p_probability :: real

text \<open>\<open>entities\<close> lists the categories in the order of \<^verbatim>\<open>Object.entries\<close>.\<close>

record prediction =
  icdPredictions :: "pred list option"
  entities :: "(string \<times> string list) list option"

text \<open>The fetched graph; its field \<^verbatim>\<open>paths\<close> is never read.\<close>

record graphData =
  gd_nodes :: "node list option"
  gd_edges :: "edge list option"
  gd_entities :: "(string \<times> string list) list option"

text \<open>What the component hands to \<^verbatim>\<open>renderGraph\<close>, or the placeholder it shows
  when there is nothing to draw.\<close>

datatype view = EmptyState | Rendered "node list" "edge list"

text \<open>\<^verbatim>\<open>a || b\<close> on strings and on numbers: the empty string and 0 are falsy.\<close>

definition strOr :: "string option \<Rightarrow> string option \<Rightarrow> string option" where
  "strOr a b = (case a of None \<Rightarrow> b | Some s \<Rightarrow> if s = [] then b else Some s)"

definition numOr :: "real option \<Rightarrow> real \<Rightarrow> real" where
  "numOr a b = (case a of None \<Rightarrow> b | Some r \<Rightarrow> if r = 0 then b else r)"

definition listOr :: "'a list option \<Rightarrow> 'a list" where
  "listOr a = (case a of None \<Rightarrow> [] | Some xs \<Rightarrow> xs)"

fun mapE :: "('a \<Rightarrow> error + 'b) \<Rightarrow> 'a list \<Rightarrow> error + 'b list" where
  "mapE f [] = Inr []"
| "mapE f (a # as) =
     (case f a of
        Inl e \<Rightarrow> Inl e
      | Inr b \<Rightarrow> (case mapE f as of Inl e \<Rightarrow> Inl e | Inr bs \<Rightarrow> Inr (b # bs)))"

text \<open>An ICD node of a prediction; \<^verbatim>\<open>pred.code.split('.')\<close> throws without a code.\<close>

definition icdNode :: "pred \<Rightarrow> error + node" where
  "icdNode pr =
     (case p_code pr of
        None \<Rightarrow> Inl TypeError
      | Some c \<Rightarrow>
          Inr \<lparr>n_id = Some c,
               n_label = strOr (p_description pr) (Some c),
               n_type = Some ''icd'',
               n_level = Some (length (split_str CHR ''.'' c)),
               n_probability = Some (p_probability pr)\<rparr>)"

definition entityNode :: "string \<Rightarrow> string \<Rightarrow> node" where
  "entityNode ty entity =
     \<lparr>n_id = Some (''entity_'' @ ty @ ''_'' @ entity),
      n_label = Some entity,
      n_type = Some (''entity_'' @ ty),
      n_level = Some 0,
      n_probability = None\<rparr>"

text \<open>Entity nodes, fallback construction: every one of the first three labels of a
  category is pushed.\<close>

definition pushEntities :: "(string \<times> string list) list \<Rightarrow> node list \<Rightarrow> node list" where
  "pushEntities ents fallbackNodes =
     fold (\<lambda>(ty, labels) ns.
             fold (\<lambda>entity ns. ns @ [entityNode ty entity]) (take 3 labels) ns)
       ents fallbackNodes"

text \<open>Entity nodes, construction from fetched data: a label is pushed unless a node with
  its id is in the list already.\<close>

definition pushNewEntities :: "(string \<times> string list) list \<Rightarrow> node list \<Rightarrow> node list" where
  "pushNewEntities ents allNodes =
     fold (\<lambda>(ty, labels) ns.
             fold (\<lambda>entity ns.
                     (case find (\<lambda>n. n_id n = n_id (entityNode ty entity)) ns of
                        None \<Rightarrow> ns @ [entityNode ty entity]
                      | Some _ \<Rightarrow> ns))
               (take 3 labels) ns)
       ents allNodes"

definition parentChild :: "string \<Rightarrow> string option \<Rightarrow> real \<Rightarrow> edge" where
  "parentChild parentCode child w =
     \<lparr>e_source = Some parentCode, e_target = child, e_type = Some ''parent-child'',
      e_weight = Some w\<rparr>"

text \<open>Hierarchy edges, fallback construction.\<close>

definition fallbackHierarchyStep :: "node list \<Rightarrow> node \<Rightarrow> edge list \<Rightarrow> error + edge list" where
  "fallbackHierarchyStep nodes node es =
     (case n_id node of
        None \<Rightarrow> Inl TypeError
      | Some i \<Rightarrow>
         (let parts = split_str CHR ''.'' i
          in if length parts > 1 then
               (let parentCode = parentOf parts
                in case find (\<lambda>n. n_id n = Some parentCode) nodes of
                     None \<Rightarrow> Inr es
                   | Some parentNode \<Rightarrow>
                       Inr (es @ [parentChild parentCode (n_id node)
                                    (numOr (n_probability node) 0.5)]))
             else Inr es))"

text \<open>Hierarchy edges, construction from fetched data: guarded by \<^verbatim>\<open>node.id && ...\<close>,
  skipped when the edge is there already, weighted by the prediction of the same code.\<close>

definition apiHierarchyStep :: "node list \<Rightarrow> pred list \<Rightarrow> node \<Rightarrow> edge list \<Rightarrow> edge list" where
  "apiHierarchyStep nodes preds node es =
     (case n_id node of
        None \<Rightarrow> es
      | Some i \<Rightarrow>
         if i \<noteq> [] \<and> \<not> startsWith i ''entity_'' then
           (let parts = split_str CHR ''.'' i
            in if length parts > 1 then
                 (let parentCode = parentOf parts
                  in case find (\<lambda>n. n_id n = Some parentCode) nodes of
                       None \<Rightarrow> es
                     | Some _ \<Rightarrow>
                        (case find (\<lambda>e. e_source e = Some parentCode \<and> e_target e = n_id node) es of
                           Some _ \<Rightarrow> es
                         | None \<Rightarrow>
                            es @ [parentChild parentCode (n_id node)
                                    (numOr (map_option p_probability
                                              (find (\<lambda>p. p_code p = n_id node) preds)) 0.5)]))
               else es)
         else es)"

text \<open>Edges from entity nodes to the three first predictions; the same loop in both
  constructions. \<^verbatim>\<open>entityNode.id.startsWith\<close> and \<^verbatim>\<open>entityNode.type.includes\<close>
  throw on a missing field.\<close>

definition entityWeight :: "string \<Rightarrow> real \<Rightarrow> real" where
  "entityWeight ty probability =
     (if str_includes ty ''diseases'' then probability * 0.8
      else if str_includes ty ''symptoms'' then probability * 0.6
      else 0.5)"

definition connectEntity :: "node list \<Rightarrow> node \<Rightarrow> pred \<Rightarrow> edge list \<Rightarrow> error + edge list" where
  "connectEntity allNodes entNode icdPred es =
     (case find (\<lambda>n. n_id n = p_code icdPred) allNodes of
        None \<Rightarrow> Inr es
      | Some icd \<Rightarrow>
         (case n_type entNode of
            None \<Rightarrow> Inl TypeError
          | Some ty \<Rightarrow>
              Inr (es @ [\<lparr>e_source = n_id entNode, e_target = n_id icd,
                          e_type = Some ''entity-icd'',
                          e_weight = Some (entityWeight ty (p_probability icdPred))\<rparr>])))"

definition connectEntitiesStep :: "node list \<Rightarrow> pred list \<Rightarrow> node \<Rightarrow> edge list \<Rightarrow> error + edge list" where
  "connectEntitiesStep allNodes preds entNode es =
     (case n_id entNode of
        None \<Rightarrow> Inl TypeError
      | Some i \<Rightarrow>
         if startsWith i ''entity_''
         then forEachE (connectEntity allNodes entNode) (take 3 preds) es
         else Inr es)"

definition connectEntities :: "node list \<Rightarrow> pred list \<Rightarrow> edge list \<Rightarrow> error + edge list" where
  "connectEntities allNodes preds es = forEachE (connectEntitiesStep allNodes preds) allNodes es"

text \<open>The fallback construction, used when there is no fetched graph with a node.\<close>

definition fallbackGraph :: "prediction \<Rightarrow> error + view" where
  "fallbackGraph predictions =
     (case mapE icdNode (take 5 (listOr (icdPredictions predictions))) of
        Inl e \<Rightarrow> Inl e
      | Inr icdNodes \<Rightarrow>
         (let fallbackNodes =
                (case entities predictions of
                   None \<Rightarrow> icdNodes
                 | Some ents \<Rightarrow> pushEntities ents icdNodes)
          in case forEachE (fallbackHierarchyStep icdNodes) icdNodes [] of
               Inl e \<Rightarrow> Inl e
             | Inr hierarchy \<Rightarrow>
                (case connectEntities fallbackNodes (listOr (icdPredictions predictions)) hierarchy of
                   Inl e \<Rightarrow> Inl e
                 | Inr fallbackEdges \<Rightarrow> Inr (Rendered fallbackNodes fallbackEdges))))"

text \<open>\<^verbatim>\<open>predictions?.icdPredictions || []\<close>\<close>

definition rankedPredictions :: "prediction option \<Rightarrow> pred list" where
  "rankedPredictions predictions =
     (case predictions of None \<Rightarrow> [] | Some p \<Rightarrow> listOr (icdPredictions p))"

text \<open>The construction from fetched data; \<open>nodes\<close> is \<^verbatim>\<open>graphData.nodes\<close>.\<close>

definition apiGraph :: "graphData \<Rightarrow> node list \<Rightarrow> prediction option \<Rightarrow> error + view" where
  "apiGraph graphData nodes predictions =
     (let preds = rankedPredictions predictions;
          allNodes =
            (case gd_entities graphData of
               None \<Rightarrow> nodes
             | Some ents \<Rightarrow> (case predictions of None \<Rightarrow> nodes | Some _ \<Rightarrow> pushNewEntities ents nodes));
          hierarchy = fold (apiHierarchyStep nodes preds) nodes (listOr (gd_edges graphData))
      in case connectEntities allNodes preds hierarchy of
           Inl e \<Rightarrow> Inl e
         | Inr allEdges \<Rightarrow> Inr (Rendered allNodes allEdges))"

text \<open>The graph data the component sets when fetching has failed and there is a prediction
  (the \<^verbatim>\<open>catch\<close> branch): the nodes of the five first predictions, no edges, the
  prediction's entities (\<^verbatim>\<open>predictions.entities || {}\<close>).\<close>

definition catchGraphData :: "prediction \<Rightarrow> error + graphData" where
  "catchGraphData predictions =
     (case mapE icdNode (take 5 (listOr (icdPredictions predictions))) of
        Inl e \<Rightarrow> Inl e
      | Inr icdNodes \<Rightarrow>
          Inr \<lparr>gd_nodes = Some icdNodes, gd_edges = Some [],
               gd_entities = Some (listOr (entities predictions))\<rparr>)"

text \<open>The component once loading has ended: the fallback construction when
  \<^verbatim>\<open>!graphData || !graphData.nodes || graphData.nodes.length === 0\<close>, with the
  placeholder when there is no prediction either.\<close>

definition fallbackOrEmpty :: "prediction option \<Rightarrow> error + view" where
  "fallbackOrEmpty predictions =
     (case predictions of
        None \<Rightarrow> Inr EmptyState
      | Some p \<Rightarrow>
         (case icdPredictions p of
            None \<Rightarrow> Inr EmptyState
          | Some [] \<Rightarrow> Inr EmptyState
          | Some (q # qs) \<Rightarrow> fallbackGraph p))"

definition GraphViewer :: "graphData option \<Rightarrow> prediction option \<Rightarrow> error + view" where
  "GraphViewer graphData predictions =
     (case graphData of
        None \<Rightarrow> fallbackOrEmpty predictions
      | Some g \<Rightarrow>
         (case gd_nodes g of
            None \<Rightarrow> fallbackOrEmpty predictions
          | Some [] \<Rightarrow> fallbackOrEmpty predictions
          | Some (n # ns) \<Rightarrow> apiGraph g (n # ns) predictions))"

subsection \<open>Auxiliary notions for the statements\<close>

text \<open>The property keys of a node list, and the parts of a result.\<close>

definition nodeKeys :: "node list \<Rightarrow> string set" where
  "nodeKeys nodes = (\<lambda>n. propKey (n_id n)) ` set nodes"

fun viewNodes :: "error + view \<Rightarrow> node list" where
  "viewNodes (Inr (Rendered ns es)) = ns"
| "viewNodes _ = []"

fun viewEdges :: "error + view \<Rightarrow> edge list" where
  "viewEdges (Inr (Rendered ns es)) = es"
| "viewEdges _ = []"

definition attached :: "node list \<Rightarrow> edge \<Rightarrow> bool" where
  "attached ns e = (e_source e \<in> n_id ` set ns \<and> e_target e \<in> n_id ` set ns)"

text \<open>The entity-icd edge from an entity node to a prediction, for an entity node of type
  \<open>ty\<close>; and what it means for an entity node to be connected in an edge list: the edge
  to each of the three first predictions whose code is the id of a node is there.\<close>

definition entityIcdEdge :: "node \<Rightarrow> pred \<Rightarrow> string \<Rightarrow> edge" where
  "entityIcdEdge en pr ty =
     \<lparr>e_source = n_id en, e_target = p_code pr, e_type = Some ''entity-icd'',
      e_weight = Some (entityWeight ty (p_probability pr))\<rparr>"

definition connected :: "node list \<Rightarrow> pred list \<Rightarrow> edge list \<Rightarrow> node \<Rightarrow> bool" where
  "connected ns preds es en =
     (\<forall>i. n_id en = Some i \<longrightarrow> startsWith i ''entity_'' \<longrightarrow>
        (\<forall>pr \<in> set (take 3 preds). p_code pr \<in> n_id ` set ns \<longrightarrow>
           (\<exists>ty. n_type en = Some ty \<and> entityIcdEdge en pr ty \<in> set es)))"

text \<open>A dictionary object whose own keys are \<open>K\<close> and whose prototype has not been
  replaced; and the position after a round of a node on which no force acts.\<close>

definition keysAre :: "string set \<Rightarrow> dictObj \<Rightarrow> bool" where
  "keysAre K obj = (proto obj = None \<and> dom (own obj) = K)"

definition settle :: "real \<Rightarrow> real \<Rightarrow> vec \<Rightarrow> vec" where
  "settle width height v =
     \<lparr>vx = clamp width (arith (+) (vx v) (Num 0)), vy = clamp height (arith (+) (vy v) (Num 0))\<rparr>"

definition fetchedNodes :: "graphData option \<Rightarrow> node list" where
  "fetchedNodes graphData = (case graphData of None \<Rightarrow> [] | Some g \<Rightarrow> listOr (gd_nodes g))"

definition externalEdges :: "graphData option \<Rightarrow> edge list" where
  "externalEdges graphData = (case graphData of None \<Rightarrow> [] | Some g \<Rightarrow> listOr (gd_edges g))"

subsection \<open>Concrete inputs\<close>

definition plainNode :: "string \<Rightarrow> node" where
  "plainNode i = \<lparr>n_id = Some i, n_label = Some i, n_type = Some ''icd'', n_level = None,
                  n_probability = None\<rparr>"

definition plainEdge :: "string option \<Rightarrow> string option \<Rightarrow> edge" where
  "plainEdge s t = \<lparr>e_source = s, e_target = t, e_type = None, e_weight = None\<rparr>"

text \<open>The prediction of the specification's worked example.\<close>

definition c1_prediction :: prediction where
  "c1_prediction =
     \<lparr>icdPredictions = Some
        [\<lparr>p_code = Some ''410.71'', p_description = Some ''d1'', p_probability = 0.9\<rparr>,
         \<lparr>p_code = Some ''410.7'', p_description = Some ''d2'', p_probability = 0.8\<rparr>],
      entities = Some [(''diseases'', [''MI'']), (''symptoms'', []), (''procedures'', []),
                       (''medications'', [])]\<rparr>"

text \<open>A fetched graph with one node and an edge to an id that no node has.\<close>

definition c2_graph :: graphData where
  "c2_graph =
     \<lparr>gd_nodes = Some [plainNode ''A''],
      gd_edges = Some [plainEdge (Some ''A'') (Some ''Z'')],
      gd_entities = None\<rparr>"

text \<open>A fetched graph whose only node has no id.\<close>

definition c6_graph :: graphData where
  "c6_graph =
     \<lparr>gd_nodes = Some [\<lparr>n_id = None, n_label = Some ''Acute MI'', n_type = Some ''icd'',
                          n_level = None, n_probability = None\<rparr>],
      gd_edges = Some [],
      gd_entities = None\<rparr>"

text \<open>A fetched graph that does not hold the predicted code, with one entity.\<close>

definition c7_graph :: graphData where
  "c7_graph =
     \<lparr>gd_nodes = Some [plainNode ''A''],
      gd_edges = Some [],
      gd_entities = Some [(''diseases'', [''MI''])]\<rparr>"

definition c7_prediction :: prediction where
  "c7_prediction =
     \<lparr>icdPredictions = Some
        [\<lparr>p_code = Some ''410'', p_description = Some ''d'', p_probability = 0.9\<rparr>],
      entities = Some [(''diseases'', [''MI''])]\<rparr>"

text \<open>A prediction that names the same disease twice.\<close>

definition c8_prediction :: prediction where
  "c8_prediction =
     \<lparr>icdPredictions = Some
        [\<lparr>p_code = Some ''410'', p_description = Some ''d'', p_probability = 0.9\<rparr>],
      entities = Some [(''diseases'', [''MI'', ''MI''])]\<rparr>"

definition no_predictions :: prediction where
  "no_predictions = \<lparr>icdPredictions = Some [], entities = Some []\<rparr>"

text \<open>The value of the worked example: nodes and edges in the order they are pushed.\<close>

definition c1_nodes :: "node list" where
  "c1_nodes =
     [\<lparr>n_id = Some ''410.71'', n_label = Some ''d1'', n_type = Some ''icd'',
       n_level = Some 2, n_probability = Some 0.9\<rparr>,
      \<lparr>n_id = Some ''410.7'', n_label = Some ''d2'', n_type = Some ''icd'',
       n_level = Some 2, n_probability = Some 0.8\<rparr>,
      \<lparr>n_id = Some ''entity_diseases_MI'', n_label = Some ''MI'',
       n_type = Some ''entity_diseases'', n_level = Some 0, n_probability = None\<rparr>]"

definition c1_edges :: "edge list" where
  "c1_edges =
     [\<lparr>e_source = Some ''entity_diseases_MI'', e_target = Some ''410.71'',
       e_type = Some ''entity-icd'', e_weight = Some 0.72\<rparr>,
      \<lparr>e_source = Some ''entity_diseases_MI'', e_target = Some ''410.7'',
       e_type = Some ''entity-icd'', e_weight = Some 0.64\<rparr>]"

text \<open>A fetched graph with one node and an edge from it to the id \<^verbatim>\<open>constructor\<close>, which
  no node has.\<close>

definition c3_graph :: graphData where
  "c3_graph =
     \<lparr>gd_nodes = Some [plainNode ''a''],
      gd_edges = Some [plainEdge (Some ''a'') (Some ''constructor'')],
      gd_entities = None\<rparr>"

text \<open>A fetched graph whose only node has the id \<^verbatim>\<open>__proto__\<close>.\<close>

definition c10_graph :: graphData where
  "c10_graph =
     \<lparr>gd_nodes = Some [plainNode ''__proto__''], gd_edges = Some [], gd_entities = None\<rparr>"

section \<open>Properties of the layout\<close>

subsection \<open>Graphs of one node, and the graph without nodes\<close>

lemma arith_simps:
  "arith f (Num x) (Num y) = Num (f x y)" "arith f NaN b = NaN" "arith f a NaN = NaN"
  by (simp_all add: arith_def split: num.splits)

lemma getEntry_set_same: "own obj ''__proto__'' = None \<Longrightarrow> getEntry (setEntry k v obj) k = Entry v"
  by (simp add: getEntry_def setEntry_def)

lemma setEntry_twice: "setEntry k v' (setEntry k v obj) = setEntry k v' obj"
  by (simp add: setEntry_def)

lemma settle_idem: "settle w h (settle w h v) = settle w h v"
proof -
  have c: "clamp d (arith (+) (clamp d (arith (+) a (Num 0))) (Num 0)) = clamp d (arith (+) a (Num 0))"
    for d a
    by (cases a) (simp_all add: clamp_def arith_def)
  show ?thesis by (simp add: settle_def c)
qed

lemma relaxOnce_single:
  "relaxOnce [nd] [] w h (setEntry (propKey (n_id nd)) v emptyObj) =
     Inr (setEntry (propKey (n_id nd)) (settle w h v) emptyObj)"
  by (simp add: relaxOnce_def zeroForces_def applyForce_def getEntry_set_same setEntry_twice
      emptyObj_def truthy_def xOf_def yOf_def settle_def arith_def Let_def)

lemma relax_single:
  "relax (Suc n) [nd] [] w h (setEntry (propKey (n_id nd)) v emptyObj) =
     Inr (setEntry (propKey (n_id nd)) (settle w h v) emptyObj)"
proof (induction n arbitrary: v)
  case 0
  show ?case by (simp only: relax.simps relaxOnce_single sum.case)
next
  case (Suc n)
  have "relax (Suc (Suc n)) [nd] [] w h (setEntry (propKey (n_id nd)) v emptyObj) =
        relax (Suc n) [nd] [] w h (setEntry (propKey (n_id nd)) (settle w h v) emptyObj)"
    by (simp only: relax.simps relaxOnce_single sum.case)
  also have "\<dots> = Inr (setEntry (propKey (n_id nd)) (settle w h v) emptyObj)"
    by (simp only: Suc.IH settle_idem)
  finally show ?case .
qed

lemma initialPositions_single:
  "initialPositions [nd] [] w h =
     setEntry (propKey (n_id nd)) \<lparr>vx = Num (w / 2), vy = Num (h / 2)\<rparr> emptyObj"
  by (simp add: initialPositions_def findCenter_def firstId_def countDegrees_def initDegrees_def
      setDegree_def Let_def split: option.splits degree.splits)

lemma calculateNodePositions_single:
  "calculateNodePositions [nd] [] w h =
     Inr (setEntry (propKey (n_id nd)) (settle w h \<lparr>vx = Num (w / 2), vy = Num (h / 2)\<rparr>) emptyObj)"
proof -
  have "(50::nat) = Suc 49" by simp
  then show ?thesis
    by (simp only: calculateNodePositions_def initialPositions_single relax_single)
qed

lemma initialPositions_no_nodes:
  "initialPositions [] edges w h =
     \<lparr>own = Map.empty(''undefined'' \<mapsto> \<lparr>vx = Num (w / 2), vy = Num (h / 2)\<rparr>), proto = None\<rparr>"
  by (simp add: initialPositions_def findCenter_def firstId_def Let_def propKey_def setEntry_def
      emptyObj_def)

lemma relax_nothing: "relax n [] [] w h positions = Inr positions"
  by (induction n) (simp_all add: relaxOnce_def zeroForces_def)

lemma relaxOnce_no_nodes_throws:
  "relaxOnce [] [plainEdge None None] w h
     \<lparr>own = Map.empty(''undefined'' \<mapsto> v), proto = None\<rparr> = Inl TypeError"
  by (simp add: relaxOnce_def zeroForces_def attract_def addForce_def plainEdge_def propKey_def
      getEntry_def truthy_def emptyObj_def objectPrototypeNames_def Let_def)

lemma initialPositions_c3:
  "initialPositions [plainNode ''a''] [plainEdge (Some ''a'') (Some ''constructor'')] w h =
     \<lparr>own = Map.empty(''a'' \<mapsto> \<lparr>vx = Num (w / 2), vy = Num (h / 2)\<rparr>), proto = None\<rparr>"
  by (simp add: initialPositions_def findCenter_def firstId_def countDegrees_def initDegrees_def
      incDegree_def setDegree_def plainNode_def plainEdge_def propKey_def setEntry_def
      emptyObj_def objectPrototypeNames_def Let_def)

lemma relaxOnce_c3:
  "relaxOnce [plainNode ''a''] [plainEdge (Some ''a'') (Some ''constructor'')] w h
     \<lparr>own = Map.empty(''a'' \<mapsto> v), proto = None\<rparr> =
   Inr \<lparr>own = Map.empty(''a'' \<mapsto> \<lparr>vx = NaN, vy = NaN\<rparr>), proto = None\<rparr>"
  by (simp add: relaxOnce_def zeroForces_def attract_def addForce_def subForce_def applyForce_def
      plainNode_def plainEdge_def propKey_def getEntry_def setEntry_def truthy_def xOf_def yOf_def
      distanceOr1_def nsqrt_def orOne_def clamp_def arith_simps emptyObj_def
      objectPrototypeNames_def Let_def)

lemma relax_c3:
  "relax (Suc n) [plainNode ''a''] [plainEdge (Some ''a'') (Some ''constructor'')] w h
     \<lparr>own = Map.empty(''a'' \<mapsto> v), proto = None\<rparr> =
   Inr \<lparr>own = Map.empty(''a'' \<mapsto> \<lparr>vx = NaN, vy = NaN\<rparr>), proto = None\<rparr>"
proof (induction n arbitrary: v)
  case 0
  show ?case by (simp only: relax.simps relaxOnce_c3 sum.case)
next
  case (Suc n)
  have "relax (Suc (Suc n)) [plainNode ''a''] [plainEdge (Some ''a'') (Some ''constructor'')] w h
          \<lparr>own = Map.empty(''a'' \<mapsto> v), proto = None\<rparr> =
        relax (Suc n) [plainNode ''a''] [plainEdge (Some ''a'') (Some ''constructor'')] w h
          \<lparr>own = Map.empty(''a'' \<mapsto> \<lparr>vx = NaN, vy = NaN\<rparr>), proto = None\<rparr>"
    by (simp only: relax.simps relaxOnce_c3 sum.case)
  also note Suc.IH
  finally show ?case .
qed

subsection \<open>The keys of the result when no node has the id \<^verbatim>\<open>__proto__\<close>\<close>

lemma forEachE_invariant:
  assumes "I s"
    and "\<And>a t. a \<in> set as \<Longrightarrow> I t \<Longrightarrow> \<exists>t'. f a t = Inr t' \<and> I t'"
  shows "\<exists>s'. forEachE f as s = Inr s' \<and> I s'"
  using assms
proof (induction as arbitrary: s)
  case Nil
  then show ?case by simp
next
  case (Cons a as)
  have "a \<in> set (a # as)" by simp
  then have "\<exists>t. f a s = Inr t \<and> I t" using Cons.prems(1) by (rule Cons.prems(2))
  then obtain t where t: "f a s = Inr t" "I t" by blast
  have "\<exists>s'. forEachE f as t = Inr s' \<and> I s'"
  proof (rule Cons.IH [OF t(2)])
    fix b u assume "b \<in> set as" and u: "I u"
    then have "b \<in> set (a # as)" by simp
    then show "\<exists>t'. f b u = Inr t' \<and> I t'" using u by (rule Cons.prems(2))
  qed
  with t(1) show ?case by simp
qed

lemma keysAre_empty: "keysAre {} emptyObj"
  by (simp add: keysAre_def emptyObj_def)

lemma keysAre_setEntry:
  assumes "k \<noteq> ''__proto__''" and "keysAre K obj"
  shows "keysAre (insert k K) (setEntry k v obj)"
  using assms by (auto simp: keysAre_def setEntry_def)

lemma keysAre_fold:
  assumes "''__proto__'' \<notin> nodeKeys nodes" and "keysAre K obj"
  shows "keysAre (K \<union> nodeKeys nodes)
           (fold (\<lambda>node. setEntry (propKey (n_id node)) (g node)) nodes obj)"
  using assms
proof (induction nodes arbitrary: K obj)
  case Nil
  then show ?case by (simp add: nodeKeys_def)
next
  case (Cons n nodes)
  from Cons.prems(1) have k: "propKey (n_id n) \<noteq> ''__proto__''"
    and rest: "''__proto__'' \<notin> nodeKeys nodes"
    by (auto simp: nodeKeys_def)
  from Cons.IH [OF rest keysAre_setEntry [OF k Cons.prems(2)], of "g n"]
  show ?case by (simp add: nodeKeys_def)
qed

lemma keysAre_zeroForces:
  assumes "''__proto__'' \<notin> nodeKeys nodes"
  shows "keysAre (nodeKeys nodes) (zeroForces nodes)"
  using keysAre_fold [OF assms keysAre_empty, of "\<lambda>_. \<lparr>vx = Num 0, vy = Num 0\<rparr>"]
  by (simp add: zeroForces_def)

lemma keysAre_place:
  assumes "''__proto__'' \<notin> nodeKeys (map snd ins)" and "keysAre K obj"
  shows "keysAre (K \<union> nodeKeys (map snd ins)) (fold (placeOnCircle cx cy r a) ins obj)"
  using assms
proof (induction ins arbitrary: K obj)
  case Nil
  then show ?case by (simp add: nodeKeys_def)
next
  case (Cons p ins)
  obtain i n where p: "p = (i, n)" by (cases p)
  from Cons.prems(1) p have k: "propKey (n_id n) \<noteq> ''__proto__''"
    and rest: "''__proto__'' \<notin> nodeKeys (map snd ins)"
    by (auto simp: nodeKeys_def)
  from Cons.IH [OF rest keysAre_setEntry [OF k Cons.prems(2)]]
  show ?case by (simp add: p nodeKeys_def placeOnCircle_def Let_def)
qed

lemma findCenter_fold:
  "snd (fold (\<lambda>node (maxDegree, centerNodeId).
                  (case degrees (propKey (n_id node)) of
                     Some (Count d) \<Rightarrow>
                       if d > maxDegree then (d, n_id node) else (maxDegree, centerNodeId)
                   | _ \<Rightarrow> (maxDegree, centerNodeId)))
            nodes (m, c)) \<in> insert c (n_id ` set nodes)"
  by (induction nodes arbitrary: m c) (auto split: option.splits degree.splits)

lemma findCenter_in: "nodes \<noteq> [] \<Longrightarrow> findCenter nodes degrees \<in> n_id ` set nodes"
  unfolding findCenter_def using findCenter_fold [of degrees nodes 0 "firstId nodes"]
  by (cases nodes) (auto simp: firstId_def)

lemma keysAre_initialPositions:
  assumes "nodes \<noteq> []" and "''__proto__'' \<notin> nodeKeys nodes"
  shows "keysAre (nodeKeys nodes) (initialPositions nodes edges width height)"
proof -
  define c where "c = findCenter nodes (countDegrees nodes edges)"
  define others where "others = filter (\<lambda>n. n_id n \<noteq> c) nodes"
  from findCenter_in [OF assms(1)] have cin: "c \<in> n_id ` set nodes" by (simp add: c_def)
  then have ck: "propKey c \<in> nodeKeys nodes" by (auto simp: nodeKeys_def)
  with assms(2) have "propKey c \<noteq> ''__proto__''" by auto
  from keysAre_setEntry [OF this keysAre_empty]
  have start: "keysAre {propKey c} (setEntry (propKey c) \<lparr>vx = Num (width / 2), vy = Num (height / 2)\<rparr> emptyObj)"
    by simp
  have sub: "nodeKeys others \<subseteq> nodeKeys nodes" by (auto simp: nodeKeys_def others_def)
  with assms(2) have "''__proto__'' \<notin> nodeKeys (map snd (enumerate 0 others))" by auto
  from keysAre_place [OF this start]
  have "keysAre ({propKey c} \<union> nodeKeys others)
          (fold (placeOnCircle (width / 2) (height / 2) (min width height * 0.4)
                   ((2 * pi) / real (max (length others) 1))) (enumerate 0 others)
             (setEntry (propKey c) \<lparr>vx = Num (width / 2), vy = Num (height / 2)\<rparr> emptyObj))"
    by simp
  moreover have "{propKey c} \<union> nodeKeys others = nodeKeys nodes"
    using ck by (auto simp: nodeKeys_def others_def)
  ultimately show ?thesis
    by (simp add: initialPositions_def Let_def c_def others_def)
qed

lemma getEntry_keysAre:
  assumes "keysAre K obj"
  shows "k \<in> K \<Longrightarrow> \<exists>v. getEntry obj k = Entry v"
    and "k \<notin> K \<Longrightarrow> getEntry obj k = (if k \<in> set objectPrototypeNames then Inherited else Undefined)"
proof -
  assume "k \<in> K"
  with assms obtain v where "own obj k = Some v" by (auto simp: keysAre_def)
  then show "\<exists>v. getEntry obj k = Entry v" by (simp add: getEntry_def)
next
  assume "k \<notin> K"
  with assms have "own obj k = None" "proto obj = None" by (auto simp: keysAre_def)
  then show "getEntry obj k = (if k \<in> set objectPrototypeNames then Inherited else Undefined)"
    by (simp add: getEntry_def objectPrototypeNames_def)
qed

lemma truthy_keysAre:
  assumes "keysAre K obj"
  shows "truthy (getEntry obj k) \<longleftrightarrow> k \<in> K \<or> k \<in> set objectPrototypeNames"
proof (cases "k \<in> K")
  case True
  from getEntry_keysAre(1) [OF assms True] obtain v where "getEntry obj k = Entry v" by blast
  with True show ?thesis by (simp add: truthy_def)
next
  case False
  with getEntry_keysAre(2) [OF assms] show ?thesis by (simp add: truthy_def)
qed

lemma addForce_ok:
  assumes "keysAre K forces" and "''__proto__'' \<notin> K"
    and "k \<in> K \<or> k \<in> set objectPrototypeNames"
  shows "\<exists>forces'. addForce k fx fy forces = Inr forces' \<and> keysAre K forces'"
proof (cases "k \<in> K")
  case True
  with getEntry_keysAre(1) [OF assms(1)] obtain f where f: "getEntry forces k = Entry f" by blast
  from True assms(2) have "k \<noteq> ''__proto__''" by auto
  from keysAre_setEntry [OF this assms(1)] True
  have "keysAre K (setEntry k \<lparr>vx = arith (+) (vx f) fx, vy = arith (+) (vy f) fy\<rparr> forces)"
    by (simp add: insert_absorb)
  with f show ?thesis by (simp add: addForce_def)
next
  case False
  with getEntry_keysAre(2) [OF assms(1)] assms(3) have "getEntry forces k = Inherited" by simp
  with assms(1) show ?thesis by (simp add: addForce_def)
qed

lemma subForce_ok:
  assumes "keysAre K forces" and "''__proto__'' \<notin> K"
    and "k \<in> K \<or> k \<in> set objectPrototypeNames"
  shows "\<exists>forces'. subForce k fx fy forces = Inr forces' \<and> keysAre K forces'"
proof (cases "k \<in> K")
  case True
  with getEntry_keysAre(1) [OF assms(1)] obtain f where f: "getEntry forces k = Entry f" by blast
  from True assms(2) have "k \<noteq> ''__proto__''" by auto
  from keysAre_setEntry [OF this assms(1)] True
  have "keysAre K (setEntry k \<lparr>vx = arith (-) (vx f) fx, vy = arith (-) (vy f) fy\<rparr> forces)"
    by (simp add: insert_absorb)
  with f show ?thesis by (simp add: subForce_def)
next
  case False
  with getEntry_keysAre(2) [OF assms(1)] assms(3) have "getEntry forces k = Inherited" by simp
  with assms(1) show ?thesis by (simp add: subForce_def)
qed

lemma attract_ok:
  assumes "keysAre K positions" and "keysAre K forces" and "''__proto__'' \<notin> K"
  shows "\<exists>forces'. attract positions edge forces = Inr forces' \<and> keysAre K forces'"
proof (cases "truthy (getEntry positions (propKey (e_source edge)))
              \<and> truthy (getEntry positions (propKey (e_target edge)))")
  case False
  with assms(2) show ?thesis by (auto simp: attract_def Let_def)
next
  case True
  then have ks: "propKey (e_source edge) \<in> K \<or> propKey (e_source edge) \<in> set objectPrototypeNames"
    and kt: "propKey (e_target edge) \<in> K \<or> propKey (e_target edge) \<in> set objectPrototypeNames"
    by (simp_all add: truthy_keysAre [OF assms(1)])
  define a where "a = attract positions edge forces"
  have "\<exists>fx fy gx gy. a = (case addForce (propKey (e_source edge)) fx fy forces of
                 Inl e \<Rightarrow> Inl e
               | Inr forces' \<Rightarrow> subForce (propKey (e_target edge)) gx gy forces')"
    using True unfolding a_def attract_def Let_def by auto
  then obtain fx fy gx gy where a: "a = (case addForce (propKey (e_source edge)) fx fy forces of
                 Inl e \<Rightarrow> Inl e
               | Inr forces' \<Rightarrow> subForce (propKey (e_target edge)) gx gy forces')" by blast
  from addForce_ok [OF assms(2,3) ks] obtain f1 where
    f1: "addForce (propKey (e_source edge)) fx fy forces = Inr f1" "keysAre K f1" by blast
  from subForce_ok [OF f1(2) assms(3) kt] obtain f2 where
    f2: "subForce (propKey (e_target edge)) gx gy f1 = Inr f2" "keysAre K f2" by blast
  from a f1(1) f2 show ?thesis by (simp add: a_def)
qed

lemma repel_ok:
  assumes "keysAre K positions" and "keysAre K forces" and "''__proto__'' \<notin> K"
  shows "\<exists>forces'. repel positions node1 node2 forces = Inr forces' \<and> keysAre K forces'"
proof (cases "truthy (getEntry positions (propKey (n_id node1)))
              \<and> truthy (getEntry positions (propKey (n_id node2)))")
  case False
  with assms(2) show ?thesis by (auto simp: repel_def Let_def)
next
  case True
  then have k1: "propKey (n_id node1) \<in> K \<or> propKey (n_id node1) \<in> set objectPrototypeNames"
    and k2: "propKey (n_id node2) \<in> K \<or> propKey (n_id node2) \<in> set objectPrototypeNames"
    by (simp_all add: truthy_keysAre [OF assms(1)])
  define a where "a = repel positions node1 node2 forces"
  have "\<exists>fx fy gx gy. a = (case subForce (propKey (n_id node1)) fx fy forces of
                 Inl e \<Rightarrow> Inl e
               | Inr forces' \<Rightarrow> addForce (propKey (n_id node2)) gx gy forces')"
    using True unfolding a_def repel_def Let_def by auto
  then obtain fx fy gx gy where a: "a = (case subForce (propKey (n_id node1)) fx fy forces of
                 Inl e \<Rightarrow> Inl e
               | Inr forces' \<Rightarrow> addForce (propKey (n_id node2)) gx gy forces')" by blast
  from subForce_ok [OF assms(2,3) k1] obtain f1 where
    f1: "subForce (propKey (n_id node1)) fx fy forces = Inr f1" "keysAre K f1" by blast
  from addForce_ok [OF f1(2) assms(3) k2] obtain f2 where
    f2: "addForce (propKey (n_id node2)) gx gy f1 = Inr f2" "keysAre K f2" by blast
  from a f1(1) f2 show ?thesis by (simp add: a_def)
qed

lemma attractAll_ok:
  assumes "keysAre K positions" and "keysAre K forces" and "''__proto__'' \<notin> K"
  shows "\<exists>forces'. forEachE (attract positions) edges forces = Inr forces' \<and> keysAre K forces'"
proof (rule forEachE_invariant [where I = "keysAre K", OF assms(2)])
  fix a t assume "keysAre K t"
  from attract_ok [OF assms(1) this assms(3)]
  show "\<exists>t'. attract positions a t = Inr t' \<and> keysAre K t'" .
qed

lemma repelAll_ok:
  assumes "keysAre K positions" and "keysAre K forces" and "''__proto__'' \<notin> K"
  shows "\<exists>forces'. repelAll positions nodes forces = Inr forces' \<and> keysAre K forces'"
  using assms(2)
proof (induction nodes arbitrary: forces)
  case Nil
  then show ?case by simp
next
  case (Cons node1 rest)
  have "\<exists>f'. forEachE (repel positions node1) rest forces = Inr f' \<and> keysAre K f'"
  proof (rule forEachE_invariant [where I = "keysAre K", OF Cons.prems])
    fix a t assume "keysAre K t"
    from repel_ok [OF assms(1) this assms(3)]
    show "\<exists>t'. repel positions node1 a t = Inr t' \<and> keysAre K t'" .
  qed
  then obtain f' where f': "forEachE (repel positions node1) rest forces = Inr f'"
    "keysAre K f'" by blast
  from Cons.IH [OF f'(2)] f'(1) show ?case by simp
qed

lemma applyForce_ok:
  assumes "keysAre K positions" and "keysAre K forces" and "''__proto__'' \<notin> K"
  shows "\<exists>positions'. applyForce width height forces node positions = Inr positions'
           \<and> keysAre K positions'"
proof (cases "propKey (n_id node) \<in> K")
  case True
  from getEntry_keysAre(1) [OF assms(1) True] obtain p where
    p: "getEntry positions (propKey (n_id node)) = Entry p" by blast
  from getEntry_keysAre(1) [OF assms(2) True] obtain f where
    f: "getEntry forces (propKey (n_id node)) = Entry f" by blast
  from True assms(3) have "propKey (n_id node) \<noteq> ''__proto__''" by auto
  from keysAre_setEntry [OF this assms(1)] True
  have "keysAre K (setEntry (propKey (n_id node)) v positions)" for v
    by (simp add: insert_absorb)
  with p f show ?thesis by (simp add: applyForce_def truthy_def Let_def)
next
  case False
  from getEntry_keysAre(2) [OF assms(1) False] getEntry_keysAre(2) [OF assms(2) False] assms(1)
  show ?thesis by (simp add: applyForce_def truthy_def Let_def)
qed

lemma relaxOnce_ok:
  assumes "keysAre (nodeKeys nodes) positions" and "''__proto__'' \<notin> nodeKeys nodes"
  shows "\<exists>positions'. relaxOnce nodes edges width height positions = Inr positions'
           \<and> keysAre (nodeKeys nodes) positions'"
proof -
  from attractAll_ok [OF assms(1) keysAre_zeroForces [OF assms(2)] assms(2)]
  obtain f1 where f1: "forEachE (attract positions) edges (zeroForces nodes) = Inr f1"
    "keysAre (nodeKeys nodes) f1" by blast
  from repelAll_ok [OF assms(1) f1(2) assms(2)]
  obtain f2 where f2: "repelAll positions nodes f1 = Inr f2" "keysAre (nodeKeys nodes) f2"
    by blast
  have "\<exists>p'. forEachE (applyForce width height f2) nodes positions = Inr p'
          \<and> keysAre (nodeKeys nodes) p'"
  proof (rule forEachE_invariant [where I = "keysAre (nodeKeys nodes)", OF assms(1)])
    fix a t assume "keysAre (nodeKeys nodes) t"
    from applyForce_ok [OF this f2(2) assms(2)]
    show "\<exists>t'. applyForce width height f2 a t = Inr t' \<and> keysAre (nodeKeys nodes) t'" .
  qed
  with f1(1) f2(1) show ?thesis by (simp add: relaxOnce_def)
qed

lemma relax_ok:
  assumes "''__proto__'' \<notin> nodeKeys nodes" and "keysAre (nodeKeys nodes) positions"
  shows "\<exists>positions'. relax n nodes edges width height positions = Inr positions'
           \<and> keysAre (nodeKeys nodes) positions'"
  using assms(2)
proof (induction n arbitrary: positions)
  case 0
  then show ?case by simp
next
  case (Suc n)
  from relaxOnce_ok [OF Suc.prems assms(1)]
  obtain p1 where p1: "relaxOnce nodes edges width height positions = Inr p1"
    "keysAre (nodeKeys nodes) p1" by blast
  from Suc.IH [OF p1(2)] p1(1) show ?case by simp
qed

lemma calculateNodePositions_ok:
  assumes "nodes \<noteq> []" and "''__proto__'' \<notin> nodeKeys nodes"
  shows "\<exists>positions. calculateNodePositions nodes edges width height = Inr positions
           \<and> keysAre (nodeKeys nodes) positions"
  unfolding calculateNodePositions_def
  by (rule relax_ok [OF assms(2) keysAre_initialPositions [OF assms]])

subsection \<open>What the layout returns\<close>

text \<open>Claim C4 (an empty node list gives an empty position map, without error) does not hold
  of the function: with no node \<^verbatim>\<open>nodes[0]?.id\<close> is \<^verbatim>\<open>undefined\<close>, and the centre
  position is still stored, under the key \<^verbatim>\<open>"undefined"\<close>, so the map returned has one
  entry; with an edge whose two endpoints are \<^verbatim>\<open>undefined\<close> the first round finds that
  entry for both and then reads \<^verbatim>\<open>forces[undefined].x\<close>, which throws.\<close>

theorem no_nodes_phantom_entry:
  "calculateNodePositions [] [] 800 600 =
     Inr \<lparr>own = Map.empty(''undefined'' \<mapsto> \<lparr>vx = Num 400, vy = Num 300\<rparr>), proto = None\<rparr>
   \<and> calculateNodePositions [] [plainEdge None None] 800 600 = Inl TypeError"
proof -
  have "(50::nat) = Suc 49" by simp
  then have "calculateNodePositions [] [plainEdge None None] 800 600 = Inl TypeError"
    by (simp only: calculateNodePositions_def initialPositions_no_nodes relax.simps
        relaxOnce_no_nodes_throws sum.case)
  moreover have "calculateNodePositions [] [] 800 600 =
      Inr \<lparr>own = Map.empty(''undefined'' \<mapsto> \<lparr>vx = Num 400, vy = Num 300\<rparr>), proto = None\<rparr>"
    by (simp add: calculateNodePositions_def initialPositions_no_nodes relax_nothing)
  ultimately show ?thesis by simp
qed

lemma c3_graph_rendered:
  "GraphViewer (Some c3_graph) (Some no_predictions)
     = Inr (Rendered [plainNode ''a''] [plainEdge (Some ''a'') (Some ''constructor'')])"
  by (simp add: GraphViewer_def c3_graph_def no_predictions_def apiGraph_def listOr_def
      rankedPredictions_def apiHierarchyStep_def connectEntities_def connectEntitiesStep_def
      plainNode_def plainEdge_def startsWith_def Let_def)

text \<open>Claim C3 (every coordinate returned lies between the margin 80 and the dimension minus
  80, for every graph with a node and a canvas of at least 160 by 160) does not hold of
  the code. A fetched graph with the node a and an edge from a to \<^verbatim>\<open>constructor\<close> is
  handed to the layout as it is. There \<^verbatim>\<open>positions['constructor']\<close> is the inherited
  function, which is truthy, so the edge is not skipped;
  \<^verbatim>\<open>target.x - source.x\<close> is NaN, the force on a is NaN, and the clamp of NaN is NaN:
  on a canvas of 800 by 600 the position of a is (NaN, NaN).\<close>

theorem inherited_endpoint_gives_nan:
  "GraphViewer (Some c3_graph) (Some no_predictions)
     = Inr (Rendered [plainNode ''a''] [plainEdge (Some ''a'') (Some ''constructor'')])
   \<and> calculateNodePositions [plainNode ''a''] [plainEdge (Some ''a'') (Some ''constructor'')] 800 600
     = Inr \<lparr>own = Map.empty(''a'' \<mapsto> \<lparr>vx = NaN, vy = NaN\<rparr>), proto = None\<rparr>"
proof -
  have "(50::nat) = Suc 49" by simp
  then have "calculateNodePositions [plainNode ''a'']
      [plainEdge (Some ''a'') (Some ''constructor'')] 800 600
     = Inr \<lparr>own = Map.empty(''a'' \<mapsto> \<lparr>vx = NaN, vy = NaN\<rparr>), proto = None\<rparr>"
    by (simp only: calculateNodePositions_def initialPositions_c3 relax_c3)
  with c3_graph_rendered show ?thesis by simp
qed

text \<open>Claim C10 (the map returned has a position for every node id of the input and no other
  entry) does not hold of the code. A fetched graph whose node has the id
  \<^verbatim>\<open>__proto__\<close> is handed to the layout as it is. There
  \<^verbatim>\<open>positions['__proto__'] = {x, y}\<close> replaces the prototype of \<^verbatim>\<open>positions\<close> and
  creates no property: the object returned has no own key at all.\<close>

theorem proto_id_gets_no_key:
  "GraphViewer (Some c10_graph) (Some no_predictions) = Inr (Rendered [plainNode ''__proto__''] [])
   \<and> calculateNodePositions [plainNode ''__proto__''] [] 800 600
     = Inr \<lparr>own = Map.empty, proto = Some \<lparr>vx = Num 400, vy = Num 300\<rparr>\<rparr>"
proof -
  have "GraphViewer (Some c10_graph) (Some no_predictions)
      = Inr (Rendered [plainNode ''__proto__''] [])"
    by (simp add: GraphViewer_def c10_graph_def no_predictions_def apiGraph_def listOr_def
      rankedPredictions_def apiHierarchyStep_def connectEntities_def connectEntitiesStep_def
      plainNode_def startsWith_def parentOf_def Let_def)
  moreover have "calculateNodePositions [plainNode ''__proto__''] [] 800 600
     = Inr \<lparr>own = Map.empty, proto = Some \<lparr>vx = Num 400, vy = Num 300\<rparr>\<rparr>"
    by (simp add: calculateNodePositions_single plainNode_def propKey_def setEntry_def
        emptyObj_def settle_def clamp_def arith_simps)
  ultimately show ?thesis by simp
qed

text \<open>Claim C5 (a canvas with \<open>width \<le> 0\<close> or \<open>height \<le> 0\<close> gives an empty layout) does not
  hold of the code. The function never looks at the sign of the dimensions: on a 0 by 0
  canvas a single node is placed at (80, 80). And a container of 0 by 0 does not make the
  component pass these dimensions: it lays the node out on 800 by 600, at (400, 300).\<close>

theorem degenerate_canvas_counterexample:
  "calculateNodePositions [plainNode ''a''] [] 0 0
     = Inr \<lparr>own = Map.empty(''a'' \<mapsto> \<lparr>vx = Num 80, vy = Num 80\<rparr>), proto = None\<rparr>
   \<and> nodePositions (updateDimensions 0 0) [plainNode ''a''] []
     = Inr \<lparr>own = Map.empty(''a'' \<mapsto> \<lparr>vx = Num 400, vy = Num 300\<rparr>), proto = None\<rparr>"
  by (simp add: nodePositions_def updateDimensions_def calculateNodePositions_single plainNode_def
      propKey_def setEntry_def emptyObj_def settle_def clamp_def arith_simps)

text \<open>Claim C5 as amended: the layout has no case for a canvas without area. For a graph
  with at least one node, none of id \<^verbatim>\<open>__proto__\<close>, it returns an entry for every node
  whatever the width and the height, also when they are 0 or negative. A width or height
  of 0 of the container does not reach it: the component passes 800 for a width of 0 and
  600 for a height of 0.\<close>

theorem degenerate_canvas_is_laid_out:
  assumes "nodes \<noteq> []" and "''__proto__'' \<notin> nodeKeys nodes"
  shows "(\<exists>positions. calculateNodePositions nodes edges width height = Inr positions
            \<and> proto positions = None \<and> dom (own positions) = nodeKeys nodes)
         \<and> nodePositions (updateDimensions rectWidth rectHeight) nodes edges
             = calculateNodePositions nodes edges
                 (if rectWidth = 0 then 800 else rectWidth)
                 (if rectHeight = 0 then 600 else rectHeight)"
  using calculateNodePositions_ok [OF assms, of edges width height]
  by (simp add: keysAre_def nodePositions_def updateDimensions_def)

theorem degenerate_canvas_is_laid_out_witness:
  "[plainNode ''a'', plainNode ''b''] \<noteq> []
   \<and> ''__proto__'' \<notin> nodeKeys [plainNode ''a'', plainNode ''b'']
   \<and> (\<exists>positions.
        calculateNodePositions [plainNode ''a'', plainNode ''b'']
          [plainEdge (Some ''a'') (Some ''b''), plainEdge (Some ''a'') (Some ''constructor'')]
          0 (- 5) = Inr positions
        \<and> proto positions = None \<and> dom (own positions) = {''a'', ''b''})
   \<and> nodePositions (updateDimensions 0 0) [plainNode ''a'', plainNode ''b'']
        [plainEdge (Some ''a'') (Some ''b''), plainEdge (Some ''a'') (Some ''constructor'')]
      = calculateNodePositions [plainNode ''a'', plainNode ''b'']
          [plainEdge (Some ''a'') (Some ''b''), plainEdge (Some ''a'') (Some ''constructor'')]
          800 600"
  using degenerate_canvas_is_laid_out [of "[plainNode ''a'', plainNode ''b'']"
      "[plainEdge (Some ''a'') (Some ''b''), plainEdge (Some ''a'') (Some ''constructor'')]"
      0 "- 5" 0 0]
  by (simp add: nodeKeys_def plainNode_def propKey_def)

section \<open>Properties of the graph construction\<close>

subsection \<open>Where the edges come from\<close>

lemma forEachE_preserves:
  assumes "forEachE f as s = Inr s'" and "I s"
    and "\<And>a t t'. a \<in> set as \<Longrightarrow> I t \<Longrightarrow> f a t = Inr t' \<Longrightarrow> I t'"
  shows "I s'"
  using assms
proof (induction as arbitrary: s)
  case Nil
  then show ?case by simp
next
  case (Cons a as)
  from Cons.prems(1) obtain t where t: "f a s = Inr t" "forEachE f as t = Inr s'"
    by (cases "f a s") simp_all
  have "a \<in> set (a # as)" by simp
  then have "I t" using Cons.prems(2) t(1) by (rule Cons.prems(3))
  show ?case
  proof (rule Cons.IH [OF t(2) \<open>I t\<close>])
    fix b u u'
    assume "b \<in> set as" and u: "I u" "f b u = Inr u'"
    then have "b \<in> set (a # as)" by simp
    then show "I u'" using u by (rule Cons.prems(3))
  qed
qed

lemma find_id_in: "find (\<lambda>n. n_id n = c) ns = Some m \<Longrightarrow> c \<in> n_id ` set ns \<and> n_id m = c"
  by (auto simp: find_Some_iff)

lemma connectEntity_edges:
  assumes "connectEntity ns en pr es = Inr es'" and "en \<in> set ns"
    and "e \<in> set es'"
  shows "e \<in> set es \<or> attached ns e"
  using assms
  by (auto simp: connectEntity_def attached_def split: option.splits dest!: find_id_in)

lemma connectEntitiesStep_edges:
  assumes "connectEntitiesStep ns preds en es = Inr es'" and "en \<in> set ns"
    and "\<forall>e \<in> set es. P e \<or> attached ns e"
  shows "\<forall>e \<in> set es'. P e \<or> attached ns e"
proof (cases "n_id en")
  case None
  with assms(1) show ?thesis by (simp add: connectEntitiesStep_def)
next
  case (Some i)
  show ?thesis
  proof (cases "startsWith i ''entity_''")
    case False
    with Some assms(1,3) show ?thesis by (simp add: connectEntitiesStep_def)
  next
    case True
    with Some assms(1) have run: "forEachE (connectEntity ns en) (take 3 preds) es = Inr es'"
      by (simp add: connectEntitiesStep_def)
    show ?thesis
    proof (rule forEachE_preserves
        [where I = "\<lambda>es. \<forall>e \<in> set es. P e \<or> attached ns e", OF run assms(3)])
      fix a t t'
      assume inv: "\<forall>e \<in> set t. P e \<or> attached ns e"
        and step: "connectEntity ns en a t = Inr t'"
      show "\<forall>e \<in> set t'. P e \<or> attached ns e"
      proof
        fix e assume e: "e \<in> set t'"
        from connectEntity_edges [OF step assms(2) e] inv show "P e \<or> attached ns e" by auto
      qed
    qed
  qed
qed

lemma connectEntities_edges:
  assumes "connectEntities ns preds es = Inr es'"
    and "\<forall>e \<in> set es. P e \<or> attached ns e"
  shows "\<forall>e \<in> set es'. P e \<or> attached ns e"
proof (rule forEachE_preserves
    [where I = "\<lambda>es. \<forall>e \<in> set es. P e \<or> attached ns e",
      OF assms(1) [unfolded connectEntities_def] assms(2)])
  fix a t t'
  assume a: "a \<in> set ns" and inv: "\<forall>e \<in> set t. P e \<or> attached ns e"
    and step: "connectEntitiesStep ns preds a t = Inr t'"
  from connectEntitiesStep_edges [OF step a inv]
  show "\<forall>e \<in> set t'. P e \<or> attached ns e" .
qed

lemma set_push_labels:
  "set ns \<subseteq> set (fold (\<lambda>entity ns. ns @ [entityNode ty entity]) ls ns)"
proof (induction ls arbitrary: ns)
  case Nil
  show ?case by simp
next
  case (Cons l ls)
  have "set ns \<subseteq> set (ns @ [entityNode ty l])" by auto
  also note Cons [of "ns @ [entityNode ty l]"]
  finally show ?case by simp
qed

lemma set_pushEntities: "set ns \<subseteq> set (pushEntities ents ns)"
  unfolding pushEntities_def
proof (induction ents arbitrary: ns)
  case Nil
  show ?case by simp
next
  case (Cons a ents)
  obtain ty ls where a: "a = (ty, ls)" by (cases a)
  note set_push_labels [of ns ty "take 3 ls"]
  also note Cons [of "fold (\<lambda>entity ns. ns @ [entityNode ty entity]) (take 3 ls) ns"]
  finally show ?case by (simp add: a)
qed

lemma set_push_new_labels:
  "set ns \<subseteq> set (fold (\<lambda>entity ns.
                     (case find (\<lambda>n. n_id n = n_id (entityNode ty entity)) ns of
                        None \<Rightarrow> ns @ [entityNode ty entity]
                      | Some _ \<Rightarrow> ns)) ls ns)"
proof (induction ls arbitrary: ns)
  case Nil
  show ?case by simp
next
  case (Cons l ls)
  show ?case
  proof (cases "find (\<lambda>n. n_id n = n_id (entityNode ty l)) ns")
    case None
    have "set ns \<subseteq> set (ns @ [entityNode ty l])" by auto
    also note Cons [of "ns @ [entityNode ty l]"]
    finally show ?thesis using None by simp
  next
    case (Some m)
    with Cons [of ns] show ?thesis by simp
  qed
qed

lemma set_pushNewEntities: "set ns \<subseteq> set (pushNewEntities ents ns)"
  unfolding pushNewEntities_def
proof (induction ents arbitrary: ns)
  case Nil
  show ?case by simp
next
  case (Cons a ents)
  obtain ty ls where a: "a = (ty, ls)" by (cases a)
  note set_push_new_labels [of ns ty "take 3 ls"]
  also note Cons
  finally show ?case by (simp add: a)
qed


lemma attached_mono: "set ns \<subseteq> set ns' \<Longrightarrow> attached ns e \<Longrightarrow> attached ns' e"
  by (auto simp: attached_def)

lemma fallbackHierarchyStep_edges:
  assumes "fallbackHierarchyStep ns nd es = Inr es'" and "nd \<in> set ns"
    and "\<forall>e \<in> set es. attached ns e"
  shows "\<forall>e \<in> set es'. attached ns e"
proof -
  have "es' = es \<or> (\<exists>pc w. es' = es @ [parentChild pc (n_id nd) w] \<and> Some pc \<in> n_id ` set ns)"
    using assms(1)
    by (auto simp: fallbackHierarchyStep_def Let_def split: option.splits if_splits
        dest!: find_id_in)
  then show ?thesis
    using assms(2,3) by (auto simp: attached_def parentChild_def)
qed

lemma fallbackHierarchy_edges:
  assumes "forEachE (fallbackHierarchyStep ns) ns [] = Inr es"
  shows "\<forall>e \<in> set es. attached ns e"
proof (rule forEachE_preserves [where I = "\<lambda>es. \<forall>e \<in> set es. attached ns e", OF assms])
  show "\<forall>e \<in> set []. attached ns e" by simp
next
  fix a t t'
  assume "a \<in> set ns" "\<forall>e \<in> set t. attached ns e" "fallbackHierarchyStep ns a t = Inr t'"
  then show "\<forall>e \<in> set t'. attached ns e"
    using fallbackHierarchyStep_edges by blast
qed

lemma apiHierarchyStep_edges:
  assumes "nd \<in> set ns" and "\<forall>e \<in> set es. P e \<or> attached ns e"
  shows "\<forall>e \<in> set (apiHierarchyStep ns preds nd es). P e \<or> attached ns e"
proof -
  have "apiHierarchyStep ns preds nd es = es
        \<or> (\<exists>pc w. apiHierarchyStep ns preds nd es = es @ [parentChild pc (n_id nd) w]
                  \<and> Some pc \<in> n_id ` set ns)"
    by (auto simp: apiHierarchyStep_def Let_def split: option.splits if_splits
        dest!: find_id_in)
  then show ?thesis
    using assms by (auto simp: attached_def parentChild_def)
qed

lemma fold_preserves:
  assumes "I s" and "\<And>a t. a \<in> set as \<Longrightarrow> I t \<Longrightarrow> I (f a t)"
  shows "I (fold f as s)"
  using assms
proof (induction as arbitrary: s)
  case Nil
  then show ?case by simp
next
  case (Cons a as)
  have "a \<in> set (a # as)" by simp
  then have "I (f a s)" using Cons.prems(1) by (rule Cons.prems(2))
  have "I (fold f as (f a s))"
  proof (rule Cons.IH [OF \<open>I (f a s)\<close>])
    fix b u assume "b \<in> set as" and u: "I u"
    then have "b \<in> set (a # as)" by simp
    then show "I (f b u)" using u by (rule Cons.prems(2))
  qed
  then show ?case by simp
qed

lemma apiHierarchy_edges:
  assumes "\<forall>e \<in> set es. P e \<or> attached ns e"
  shows "\<forall>e \<in> set (fold (apiHierarchyStep ns preds) ns es). P e \<or> attached ns e"
proof (rule fold_preserves [where I = "\<lambda>es. \<forall>e \<in> set es. P e \<or> attached ns e", OF assms])
  fix a t
  assume "a \<in> set ns" "\<forall>e \<in> set t. P e \<or> attached ns e"
  then show "\<forall>e \<in> set (apiHierarchyStep ns preds a t). P e \<or> attached ns e"
    by (rule apiHierarchyStep_edges)
qed

lemma fallbackGraph_edges:
  assumes "fallbackGraph p = Inr (Rendered ns es)"
  shows "\<forall>e \<in> set es. attached ns e"
proof -
  from assms obtain icdNodes hierarchy where
    icd: "mapE icdNode (take 5 (listOr (icdPredictions p))) = Inr icdNodes"
    and ns: "ns = (case entities p of None \<Rightarrow> icdNodes | Some ents \<Rightarrow> pushEntities ents icdNodes)"
    and h: "forEachE (fallbackHierarchyStep icdNodes) icdNodes [] = Inr hierarchy"
    and c: "connectEntities ns (listOr (icdPredictions p)) hierarchy = Inr es"
    by (auto simp: fallbackGraph_def Let_def split: sum.splits)
  have sub: "set icdNodes \<subseteq> set ns"
    unfolding ns using set_pushEntities by (auto split: option.splits)
  from fallbackHierarchy_edges [OF h] attached_mono [OF sub]
  have "\<forall>e \<in> set hierarchy. False \<or> attached ns e" by blast
  from connectEntities_edges [OF c this] show ?thesis by simp
qed

lemma apiGraph_edges:
  assumes "apiGraph g nodes predictions = Inr (Rendered ns es)"
  shows "\<forall>e \<in> set es. e \<in> set (listOr (gd_edges g)) \<or> attached ns e"
proof -
  define hierarchy where
    "hierarchy = fold (apiHierarchyStep nodes (rankedPredictions predictions)) nodes (listOr (gd_edges g))"
  from assms have
    ns: "ns = (case gd_entities g of None \<Rightarrow> nodes
               | Some ents \<Rightarrow> (case predictions of None \<Rightarrow> nodes | Some _ \<Rightarrow> pushNewEntities ents nodes))"
    and c: "connectEntities ns (rankedPredictions predictions) hierarchy = Inr es"
    by (auto simp: apiGraph_def Let_def hierarchy_def split: sum.splits)
  have sub: "set nodes \<subseteq> set ns"
    unfolding ns using set_pushNewEntities by (auto split: option.splits)
  have "\<forall>e \<in> set (listOr (gd_edges g)). e \<in> set (listOr (gd_edges g)) \<or> attached nodes e"
    by simp
  from apiHierarchy_edges [where P = "\<lambda>e. e \<in> set (listOr (gd_edges g))", OF this]
  have "\<forall>e \<in> set hierarchy. e \<in> set (listOr (gd_edges g)) \<or> attached nodes e"
    unfolding hierarchy_def .
  with attached_mono [OF sub]
  have "\<forall>e \<in> set hierarchy. e \<in> set (listOr (gd_edges g)) \<or> attached ns e" by blast
  from connectEntities_edges [where P = "\<lambda>e. e \<in> set (listOr (gd_edges g))", OF c this]
  show ?thesis .
qed

lemma fallbackOrEmpty_edges:
  assumes "fallbackOrEmpty predictions = Inr (Rendered ns es)"
  shows "\<forall>e \<in> set es. attached ns e"
  using assms fallbackGraph_edges
  by (auto simp: fallbackOrEmpty_def split: option.splits list.splits)

text \<open>Claim C2 as amended: every edge of the result has both its source and its target
  among the ids of the result's nodes, or is an edge of a fetched graph with at least one
  node, copied as it came. In particular every edge the construction adds itself is
  attached at both ends, and so is every edge of the fallback construction.\<close>

theorem builder_edges_attached_or_external:
  assumes "GraphViewer graphData predictions = Inr (Rendered ns es)" and "e \<in> set es"
  shows "(fetchedNodes graphData \<noteq> [] \<and> e \<in> set (externalEdges graphData))
         \<or> (e_source e \<in> n_id ` set ns \<and> e_target e \<in> n_id ` set ns)"
proof (cases graphData)
  case None
  with assms(1) have "fallbackOrEmpty predictions = Inr (Rendered ns es)"
    by (simp add: GraphViewer_def)
  from fallbackOrEmpty_edges [OF this] assms(2) show ?thesis by (simp add: attached_def)
next
  case (Some g)
  show ?thesis
  proof (cases "\<exists>n rest. gd_nodes g = Some (n # rest)")
    case True
    then obtain n rest where n: "gd_nodes g = Some (n # rest)" by blast
    with Some assms(1) have "apiGraph g (n # rest) predictions = Inr (Rendered ns es)"
      by (simp add: GraphViewer_def)
    from apiGraph_edges [OF this] assms(2) Some n show ?thesis
      by (simp add: attached_def externalEdges_def fetchedNodes_def listOr_def)
  next
    case False
    with Some assms(1) have "fallbackOrEmpty predictions = Inr (Rendered ns es)"
      by (auto simp: GraphViewer_def split: option.splits list.splits)
    from fallbackOrEmpty_edges [OF this] assms(2) show ?thesis by (simp add: attached_def)
  qed
qed


lemma c1_example_value: "GraphViewer None (Some c1_prediction) = Inr (Rendered c1_nodes c1_edges)"
  by (simp add: GraphViewer_def fallbackOrEmpty_def c1_prediction_def fallbackGraph_def listOr_def
      icdNode_def strOr_def pushEntities_def entityNode_def fallbackHierarchyStep_def parentOf_def
      connectEntities_def connectEntitiesStep_def connectEntity_def entityWeight_def
      startsWith_def Let_def c1_nodes_def c1_edges_def)

lemma c1_after_failed_fetch:
  "(case catchGraphData c1_prediction of
      Inl e \<Rightarrow> Inl e
    | Inr g \<Rightarrow> GraphViewer (Some g) (Some c1_prediction)) = Inr (Rendered c1_nodes c1_edges)"
  by (simp add: catchGraphData_def GraphViewer_def c1_prediction_def apiGraph_def listOr_def
      icdNode_def strOr_def pushNewEntities_def entityNode_def apiHierarchyStep_def parentOf_def
      rankedPredictions_def connectEntities_def connectEntitiesStep_def connectEntity_def
      entityWeight_def startsWith_def Let_def c1_nodes_def c1_edges_def)

theorem builder_edges_attached_or_external_witness:
  "GraphViewer None (Some c1_prediction) = Inr (Rendered c1_nodes c1_edges)
   \<and> c1_edges ! 0 \<in> set c1_edges
   \<and> ((fetchedNodes None \<noteq> [] \<and> c1_edges ! 0 \<in> set (externalEdges None))
       \<or> (e_source (c1_edges ! 0) \<in> n_id ` set c1_nodes
          \<and> e_target (c1_edges ! 0) \<in> n_id ` set c1_nodes))"
proof -
  have e: "c1_edges ! 0 \<in> set c1_edges" by (simp add: c1_edges_def)
  from builder_edges_attached_or_external [OF c1_example_value e] c1_example_value e
  show ?thesis by simp
qed

text \<open>Claim C2 (no edge of the result has an endpoint outside the result's nodes, also for a
  fetched graph with a dangling edge) does not hold of the code: the edges of a fetched
  graph are copied without a check.\<close>

theorem dangling_external_edge_counterexample:
  "GraphViewer (Some c2_graph) (Some no_predictions)
     = Inr (Rendered [plainNode ''A''] [plainEdge (Some ''A'') (Some ''Z'')])
   \<and> e_target (plainEdge (Some ''A'') (Some ''Z'')) \<notin> n_id ` set [plainNode ''A'']"
  by (simp add: GraphViewer_def c2_graph_def no_predictions_def apiGraph_def listOr_def
      rankedPredictions_def apiHierarchyStep_def connectEntities_def connectEntitiesStep_def
      plainNode_def plainEdge_def startsWith_def Let_def)

subsection \<open>The worked example\<close>

text \<open>Claim C1 (the example yields a parent-child edge from 410.7 to 410.71 of weight 0.9)
  does not hold of the code: the edge is not in the result, whose two edges both run from
  the entity node.\<close>

theorem c1_parent_child_counterexample:
  "parentChild ''410.7'' (Some ''410.71'') 0.9
     \<notin> set (viewEdges (GraphViewer None (Some c1_prediction)))
   \<and> map e_type (viewEdges (GraphViewer None (Some c1_prediction)))
       = [Some ''entity-icd'', Some ''entity-icd'']"
  by (simp add: c1_example_value c1_edges_def parentChild_def)

text \<open>Claim C1 as amended: the example yields the two ICD nodes, one diseases entity node,
  and the two entity-icd edges of weights 0.72 and 0.64, and nothing else. There is no
  parent-child edge because the parent of a code is the code without its last
  dot-separated part, which is 410 for both codes, and no node has that id. The result is
  the same when the graph data are those the component sets after a failed fetch.\<close>

theorem c1_example_result:
  "GraphViewer None (Some c1_prediction) = Inr (Rendered c1_nodes c1_edges)
   \<and> (case catchGraphData c1_prediction of
         Inl e \<Rightarrow> Inl e
       | Inr g \<Rightarrow> GraphViewer (Some g) (Some c1_prediction)) = Inr (Rendered c1_nodes c1_edges)
   \<and> map n_id c1_nodes = [Some ''410.71'', Some ''410.7'', Some ''entity_diseases_MI'']
   \<and> map n_type c1_nodes = [Some ''icd'', Some ''icd'', Some ''entity_diseases'']
   \<and> map (\<lambda>e. (e_source e, e_target e, e_type e, e_weight e)) c1_edges
       = [(Some ''entity_diseases_MI'', Some ''410.71'', Some ''entity-icd'', Some (0.9 * 0.8)),
          (Some ''entity_diseases_MI'', Some ''410.7'', Some ''entity-icd'', Some (0.8 * 0.8))]
   \<and> parentOf (split_str CHR ''.'' ''410.71'') = ''410''
   \<and> parentOf (split_str CHR ''.'' ''410.7'') = ''410''"
  by (simp add: c1_example_value c1_after_failed_fetch c1_nodes_def c1_edges_def parentOf_def)


subsection \<open>Edges from entity nodes to predictions\<close>

lemma connected_mono: "set es \<subseteq> set es' \<Longrightarrow> connected ns preds es en \<Longrightarrow> connected ns preds es' en"
  unfolding connected_def by blast

lemma connectEntity_adds:
  assumes "connectEntity ns en pr es = Inr es'"
  shows "set es \<subseteq> set es'
         \<and> (p_code pr \<in> n_id ` set ns \<longrightarrow>
              (\<exists>ty. n_type en = Some ty \<and> entityIcdEdge en pr ty \<in> set es'))"
proof (cases "find (\<lambda>n. n_id n = p_code pr) ns")
  case None
  then have "p_code pr \<notin> n_id ` set ns" by (auto simp: find_None_iff)
  with None assms show ?thesis by (simp add: connectEntity_def)
next
  case (Some icd)
  then have "n_id icd = p_code pr" by (auto simp: find_Some_iff)
  with Some assms show ?thesis
    by (auto simp: connectEntity_def entityIcdEdge_def split: option.splits)
qed

lemma connectEntity_loop:
  assumes "forEachE (connectEntity ns en) ps es = Inr es'"
  shows "set es \<subseteq> set es'
         \<and> (\<forall>pr \<in> set ps. p_code pr \<in> n_id ` set ns \<longrightarrow>
              (\<exists>ty. n_type en = Some ty \<and> entityIcdEdge en pr ty \<in> set es'))"
  using assms
proof (induction ps arbitrary: es)
  case Nil
  then show ?case by simp
next
  case (Cons p ps)
  from Cons.prems obtain t where t: "connectEntity ns en p es = Inr t"
    "forEachE (connectEntity ns en) ps t = Inr es'"
    by (cases "connectEntity ns en p es") simp_all
  from Cons.IH [OF t(2)] have sub: "set t \<subseteq> set es'"
    and rest: "\<forall>pr \<in> set ps. p_code pr \<in> n_id ` set ns \<longrightarrow>
              (\<exists>ty. n_type en = Some ty \<and> entityIcdEdge en pr ty \<in> set es')"
    by simp_all
  from connectEntity_adds [OF t(1)] have sub0: "set es \<subseteq> set t"
    and first: "p_code p \<in> n_id ` set ns \<longrightarrow>
              (\<exists>ty. n_type en = Some ty \<and> entityIcdEdge en p ty \<in> set t)"
    by simp_all
  from first sub have "p_code p \<in> n_id ` set ns \<longrightarrow>
              (\<exists>ty. n_type en = Some ty \<and> entityIcdEdge en p ty \<in> set es')"
    by blast
  with rest sub sub0 show ?case by auto
qed

lemma connectEntitiesStep_adds:
  assumes "connectEntitiesStep ns preds en es = Inr es'"
  shows "set es \<subseteq> set es' \<and> connected ns preds es' en"
proof (cases "n_id en")
  case None
  with assms show ?thesis by (simp add: connectEntitiesStep_def)
next
  case (Some i)
  show ?thesis
  proof (cases "startsWith i ''entity_''")
    case False
    with Some assms show ?thesis by (simp add: connectEntitiesStep_def connected_def)
  next
    case True
    with Some assms have "forEachE (connectEntity ns en) (take 3 preds) es = Inr es'"
      by (simp add: connectEntitiesStep_def)
    from connectEntity_loop [OF this] show ?thesis by (simp add: connected_def)
  qed
qed

lemma connectEntities_loop:
  assumes "forEachE (connectEntitiesStep ns preds) ms es = Inr es'"
  shows "set es \<subseteq> set es' \<and> (\<forall>en \<in> set ms. connected ns preds es' en)"
  using assms
proof (induction ms arbitrary: es)
  case Nil
  then show ?case by simp
next
  case (Cons m ms)
  from Cons.prems obtain t where t: "connectEntitiesStep ns preds m es = Inr t"
    "forEachE (connectEntitiesStep ns preds) ms t = Inr es'"
    by (cases "connectEntitiesStep ns preds m es") simp_all
  from Cons.IH [OF t(2)] have sub: "set t \<subseteq> set es'"
    and rest: "\<forall>en \<in> set ms. connected ns preds es' en" by simp_all
  from connectEntitiesStep_adds [OF t(1)] have sub0: "set es \<subseteq> set t"
    and first: "connected ns preds t m" by simp_all
  from connected_mono [OF sub first] rest sub sub0 show ?case by auto
qed

lemma connectEntities_connected:
  assumes "connectEntities ns preds es = Inr es'" and "en \<in> set ns"
  shows "connected ns preds es' en"
  using connectEntities_loop [OF assms(1) [unfolded connectEntities_def]] assms(2) by blast

lemma mapE_icdNode_ids:
  "mapE icdNode ps = Inr ns \<Longrightarrow> map n_id ns = map p_code ps"
proof (induction ps arbitrary: ns)
  case Nil
  then show ?case by simp
next
  case (Cons p ps)
  from Cons.prems obtain n where n: "icdNode p = Inr n"
    by (cases "icdNode p") simp_all
  with Cons.prems obtain rest where rest: "mapE icdNode ps = Inr rest" "ns = n # rest"
    by (cases "mapE icdNode ps") auto
  from n have "n_id n = p_code p" by (auto simp: icdNode_def split: option.splits)
  with Cons.IH [OF rest(1)] rest(2) show ?case by simp
qed

lemma fallbackGraph_connected:
  assumes "fallbackGraph p = Inr (Rendered ns es)" and "en \<in> set ns"
  shows "connected ns (listOr (icdPredictions p)) es en"
    and "pr \<in> set (take 3 (listOr (icdPredictions p))) \<Longrightarrow> p_code pr \<in> n_id ` set ns"
proof -
  from assms(1) obtain icdNodes hierarchy where
    icd: "mapE icdNode (take 5 (listOr (icdPredictions p))) = Inr icdNodes"
    and ns: "ns = (case entities p of None \<Rightarrow> icdNodes | Some ents \<Rightarrow> pushEntities ents icdNodes)"
    and c: "connectEntities ns (listOr (icdPredictions p)) hierarchy = Inr es"
    by (auto simp: fallbackGraph_def Let_def split: sum.splits)
  from connectEntities_connected [OF c assms(2)]
  show "connected ns (listOr (icdPredictions p)) es en" .
  assume pr: "pr \<in> set (take 3 (listOr (icdPredictions p)))"
  have "set (take 3 (listOr (icdPredictions p))) \<subseteq> set (take 5 (listOr (icdPredictions p)))"
    by (rule set_take_subset_set_take) simp
  with pr have "p_code pr \<in> set (map p_code (take 5 (listOr (icdPredictions p))))" by auto
  then have "p_code pr \<in> n_id ` set icdNodes"
    using mapE_icdNode_ids [OF icd] by (metis list.set_map)
  moreover have "set icdNodes \<subseteq> set ns"
    unfolding ns using set_pushEntities by (auto split: option.splits)
  ultimately show "p_code pr \<in> n_id ` set ns" by blast
qed

lemma apiGraph_connected:
  assumes "apiGraph g nodes predictions = Inr (Rendered ns es)" and "en \<in> set ns"
  shows "connected ns (rankedPredictions predictions) es en"
proof -
  from assms(1) obtain hierarchy where
    "connectEntities ns (rankedPredictions predictions) hierarchy = Inr es"
    by (auto simp: apiGraph_def Let_def split: sum.splits)
  from connectEntities_connected [OF this assms(2)] show ?thesis .
qed

lemma GraphViewer_cases:
  assumes "GraphViewer graphData predictions = Inr (Rendered ns es)"
  shows "(fetchedNodes graphData = []
            \<and> (\<exists>p. predictions = Some p \<and> fallbackGraph p = Inr (Rendered ns es)))
         \<or> (fetchedNodes graphData \<noteq> []
            \<and> (\<exists>g. graphData = Some g
                  \<and> apiGraph g (fetchedNodes graphData) predictions = Inr (Rendered ns es)))"
  using assms
  by (auto simp: GraphViewer_def fallbackOrEmpty_def fetchedNodes_def listOr_def
      split: option.splits list.splits)

lemma entityWeight_categories:
  "entityWeight ''entity_diseases'' q = q * 0.8
   \<and> entityWeight ''entity_symptoms'' q = q * 0.6
   \<and> entityWeight ''entity_procedures'' q = 0.5
   \<and> entityWeight ''entity_medications'' q = 0.5"
  by (simp add: entityWeight_def startsWith_def)

text \<open>Claim C7 as amended: in a graph the construction returns, every node whose id starts
  with \<^verbatim>\<open>entity_\<close> has an entity-icd edge to each of the three first predictions whose
  code is the id of a node of the graph; in the fallback construction that is each of the
  three first predictions. The weight is decided by the node's type: probability times 0.8
  when it contains \<^verbatim>\<open>diseases\<close>, else probability times 0.6 when it contains
  \<^verbatim>\<open>symptoms\<close>, else 0.5; so 0.8 and 0.6 of the probability for the categories diseases
  and symptoms, and 0.5 for procedures and medications.\<close>

theorem entity_nodes_connected_to_top3:
  assumes "GraphViewer graphData predictions = Inr (Rendered ns es)"
    and "en \<in> set ns" and "n_id en = Some i" and "startsWith i ''entity_''"
    and "pr \<in> set (take 3 (rankedPredictions predictions))"
    and "fetchedNodes graphData = [] \<or> p_code pr \<in> n_id ` set ns"
  shows "(\<exists>ty. n_type en = Some ty
            \<and> \<lparr>e_source = Some i, e_target = p_code pr, e_type = Some ''entity-icd'',
                e_weight = Some (entityWeight ty (p_probability pr))\<rparr> \<in> set es)
         \<and> entityWeight ''entity_diseases'' q = q * 0.8
         \<and> entityWeight ''entity_symptoms'' q = q * 0.6
         \<and> entityWeight ''entity_procedures'' q = 0.5
         \<and> entityWeight ''entity_medications'' q = 0.5"
proof -
  have conn: "connected ns (rankedPredictions predictions) es en"
    and code: "p_code pr \<in> n_id ` set ns"
  proof -
    from GraphViewer_cases [OF assms(1)]
    consider p where "fetchedNodes graphData = []" "predictions = Some p"
        "fallbackGraph p = Inr (Rendered ns es)"
      | g where "fetchedNodes graphData \<noteq> []"
        "apiGraph g (fetchedNodes graphData) predictions = Inr (Rendered ns es)"
      by blast
    then have "connected ns (rankedPredictions predictions) es en
               \<and> p_code pr \<in> n_id ` set ns"
    proof cases
      case 1
      from 1(2) have r: "rankedPredictions predictions = listOr (icdPredictions p)"
        by (simp add: rankedPredictions_def)
      from fallbackGraph_connected [OF 1(3) assms(2)] assms(5) r show ?thesis by simp
    next
      case 2
      from apiGraph_connected [OF 2(2) assms(2)] assms(6) 2(1) show ?thesis by simp
    qed
    then show "connected ns (rankedPredictions predictions) es en"
      and "p_code pr \<in> n_id ` set ns" by simp_all
  qed
  from conn assms(3,4,5) code
  have "\<exists>ty. n_type en = Some ty \<and> entityIcdEdge en pr ty \<in> set es"
    unfolding connected_def by blast
  with assms(3) entityWeight_categories [of q] show ?thesis
    by (simp add: entityIcdEdge_def)
qed


theorem entity_nodes_connected_to_top3_witness:
  "GraphViewer None (Some c1_prediction) = Inr (Rendered c1_nodes c1_edges)
   \<and> c1_nodes ! 2 \<in> set c1_nodes
   \<and> n_id (c1_nodes ! 2) = Some ''entity_diseases_MI''
   \<and> startsWith ''entity_diseases_MI'' ''entity_''
   \<and> \<lparr>p_code = Some ''410.7'', p_description = Some ''d2'', p_probability = 0.8\<rparr>
        \<in> set (take 3 (rankedPredictions (Some c1_prediction)))
   \<and> (fetchedNodes None = [] \<or> Some ''410.7'' \<in> n_id ` set c1_nodes)
   \<and> n_type (c1_nodes ! 2) = Some ''entity_diseases''
   \<and> \<lparr>e_source = Some ''entity_diseases_MI'', e_target = Some ''410.7'',
       e_type = Some ''entity-icd'', e_weight = Some (0.8 * 0.8)\<rparr> \<in> set c1_edges"
proof -
  have en: "c1_nodes ! 2 \<in> set c1_nodes" and i: "n_id (c1_nodes ! 2) = Some ''entity_diseases_MI''"
    and ty: "n_type (c1_nodes ! 2) = Some ''entity_diseases''"
    by (simp_all add: c1_nodes_def)
  have st: "startsWith ''entity_diseases_MI'' ''entity_''" by (simp add: startsWith_def)
  have pr: "\<lparr>p_code = Some ''410.7'', p_description = Some ''d2'', p_probability = 0.8\<rparr>
        \<in> set (take 3 (rankedPredictions (Some c1_prediction)))"
    by (simp add: rankedPredictions_def listOr_def c1_prediction_def)
  have fb: "fetchedNodes None = []
      \<or> p_code \<lparr>p_code = Some ''410.7'', p_description = Some ''d2'', p_probability = 0.8\<rparr>
          \<in> n_id ` set c1_nodes"
    by (simp add: fetchedNodes_def)
  have w: "entityWeight ''entity_diseases'' 0.8 = 0.8 * 0.8"
    by (simp add: entityWeight_def startsWith_def)
  from entity_nodes_connected_to_top3 [OF c1_example_value en i st pr fb, of 1] ty
  have "\<lparr>e_source = Some ''entity_diseases_MI'', e_target = Some ''410.7'',
       e_type = Some ''entity-icd'',
       e_weight = Some (entityWeight ''entity_diseases'' 0.8)\<rparr> \<in> set c1_edges"
    by simp
  then have "\<lparr>e_source = Some ''entity_diseases_MI'', e_target = Some ''410.7'',
       e_type = Some ''entity-icd'', e_weight = Some (0.8 * 0.8)\<rparr> \<in> set c1_edges"
    by (simp only: w)
  with c1_example_value en i st pr ty show ?thesis by (simp add: fetchedNodes_def)
qed

text \<open>Claim C7 (every entity node is connected to each of the three first predictions) does
  not hold of the code: a prediction whose code is not the id of a node gets no edge. Here
  the fetched graph has the node A only, the prediction is for 410, and the entity node
  ends with no edge at all.\<close>

theorem entity_without_edge_counterexample:
  "GraphViewer (Some c7_graph) (Some c7_prediction)
     = Inr (Rendered [plainNode ''A'', entityNode ''diseases'' ''MI''] [])
   \<and> n_id (entityNode ''diseases'' ''MI'') = Some ''entity_diseases_MI''
   \<and> map p_code (take 3 (rankedPredictions (Some c7_prediction))) = [Some ''410'']"
  by (simp add: GraphViewer_def c7_graph_def c7_prediction_def apiGraph_def listOr_def
      rankedPredictions_def apiHierarchyStep_def connectEntities_def connectEntitiesStep_def
      connectEntity_def pushNewEntities_def entityNode_def plainNode_def startsWith_def Let_def)

subsection \<open>Inputs on which the construction fails\<close>

text \<open>With no prediction and no fetched node there is nothing to draw, and nothing is
  thrown.\<close>

lemma absent_inputs_give_placeholder:
  "GraphViewer None None = Inr EmptyState"
  "GraphViewer None (Some no_predictions) = Inr EmptyState"
  "GraphViewer (Some \<lparr>gd_nodes = Some [], gd_edges = es, gd_entities = ents\<rparr>) (Some no_predictions)
     = Inr EmptyState"
  by (simp_all add: GraphViewer_def fallbackOrEmpty_def no_predictions_def)

text \<open>The construction from fetched data keeps the ids distinct when it adds entity
  nodes.\<close>

lemma push_new_labels_distinct:
  assumes "distinct (map n_id ns)"
  shows "distinct (map n_id (fold (\<lambda>entity ns.
                     (case find (\<lambda>n. n_id n = n_id (entityNode ty entity)) ns of
                        None \<Rightarrow> ns @ [entityNode ty entity]
                      | Some _ \<Rightarrow> ns)) ls ns))"
  using assms
proof (induction ls arbitrary: ns)
  case Nil
  then show ?case by simp
next
  case (Cons l ls)
  show ?case
  proof (cases "find (\<lambda>n. n_id n = n_id (entityNode ty l)) ns")
    case None
    then have "n_id (entityNode ty l) \<notin> set (map n_id ns)" by (auto simp: find_None_iff)
    with Cons.prems have "distinct (map n_id (ns @ [entityNode ty l]))" by simp
    from Cons.IH [OF this] None show ?thesis by simp
  next
    case (Some m)
    with Cons.IH [OF Cons.prems] show ?thesis by simp
  qed
qed

lemma pushNewEntities_distinct:
  assumes "distinct (map n_id ns)"
  shows "distinct (map n_id (pushNewEntities ents ns))"
  using assms unfolding pushNewEntities_def
proof (induction ents arbitrary: ns)
  case Nil
  then show ?case by simp
next
  case (Cons a ents)
  obtain ty ls where a: "a = (ty, ls)" by (cases a)
  from push_new_labels_distinct [OF Cons.prems, of ty "take 3 ls"]
  have "distinct (map n_id (fold (\<lambda>entity ns.
                     (case find (\<lambda>n. n_id n = n_id (entityNode ty entity)) ns of
                        None \<Rightarrow> ns @ [entityNode ty entity]
                      | Some _ \<Rightarrow> ns)) (take 3 ls) ns))" .
  from Cons.IH [OF this] show ?case by (simp add: a)
qed

text \<open>Claim C6 (the construction never throws, also on a fetched graph whose nodes lack an
  id) does not hold of the code: the loop that connects entity nodes calls
  \<^verbatim>\<open>entityNode.id.startsWith\<close> on every node, with no check that the id is there.\<close>

theorem node_without_id_throws:
  "GraphViewer (Some c6_graph) (Some no_predictions) = Inl TypeError"
  by (simp add: GraphViewer_def c6_graph_def no_predictions_def apiGraph_def listOr_def
      rankedPredictions_def apiHierarchyStep_def connectEntities_def connectEntitiesStep_def
      Let_def)

text \<open>Claim C8 (node ids are unique also when a label occurs twice in a category) does not
  hold of the fallback construction, which pushes every label without looking for its id
  among the nodes: a label given twice yields two nodes of the same id.\<close>

theorem fallback_duplicates_entity_node:
  "map n_id (viewNodes (GraphViewer None (Some c8_prediction)))
     = [Some ''410'', Some ''entity_diseases_MI'', Some ''entity_diseases_MI'']
   \<and> \<not> distinct (map n_id (viewNodes (GraphViewer None (Some c8_prediction))))"
  by (simp add: GraphViewer_def fallbackOrEmpty_def c8_prediction_def fallbackGraph_def listOr_def
      icdNode_def strOr_def pushEntities_def entityNode_def fallbackHierarchyStep_def parentOf_def
      connectEntities_def connectEntitiesStep_def connectEntity_def entityWeight_def
      startsWith_def Let_def)

subsection \<open>A graph without nodes is not laid out\<close>

lemma mapE_icdNode_nonempty:
  assumes "mapE icdNode (p # ps) = Inr ns"
  shows "ns \<noteq> []"
  using mapE_icdNode_ids [OF assms] by auto

lemma fallbackGraph_nonempty:
  assumes "fallbackGraph p = Inr (Rendered ns es)" and "icdPredictions p = Some (q # qs)"
  shows "ns \<noteq> []"
proof -
  from assms obtain icdNodes where
    icd: "mapE icdNode (q # take 4 qs) = Inr icdNodes"
    and ns: "ns = (case entities p of None \<Rightarrow> icdNodes | Some ents \<Rightarrow> pushEntities ents icdNodes)"
    by (auto simp: fallbackGraph_def Let_def listOr_def take_Cons' split: sum.splits)
  from mapE_icdNode_nonempty [OF icd] have "set icdNodes \<noteq> {}" by simp
  moreover have "set icdNodes \<subseteq> set ns"
    unfolding ns using set_pushEntities by (auto split: option.splits)
  ultimately show ?thesis by auto
qed

lemma apiGraph_nonempty:
  assumes "apiGraph g (n # rest) predictions = Inr (Rendered ns es)"
  shows "ns \<noteq> []"
proof -
  from assms have
    ns: "ns = (case gd_entities g of None \<Rightarrow> n # rest
               | Some ents \<Rightarrow> (case predictions of None \<Rightarrow> n # rest
                               | Some _ \<Rightarrow> pushNewEntities ents (n # rest)))"
    by (auto simp: apiGraph_def Let_def split: sum.splits)
  have "set (n # rest) \<subseteq> set (pushNewEntities ents (n # rest))" for ents
    by (rule set_pushNewEntities)
  then have "set (n # rest) \<subseteq> set ns"
    unfolding ns by (auto split: option.splits)
  then show ?thesis by auto
qed

lemma rendered_nonempty:
  assumes "GraphViewer graphData predictions = Inr (Rendered ns es)"
  shows "ns \<noteq> []"
proof -
  have fb: "ns \<noteq> []" if "fallbackOrEmpty predictions = Inr (Rendered ns es)"
    using that fallbackGraph_nonempty
    by (auto simp: fallbackOrEmpty_def split: option.splits list.splits)
  show ?thesis
  proof (cases graphData)
    case None
    with assms fb show ?thesis by (simp add: GraphViewer_def)
  next
    case (Some g)
    show ?thesis
    proof (cases "gd_nodes g")
      case None
      with Some assms fb show ?thesis by (simp add: GraphViewer_def)
    next
      case (Some nodes)
      show ?thesis
      proof (cases nodes)
        case Nil
        with Some \<open>graphData = Some g\<close> assms fb show ?thesis by (simp add: GraphViewer_def)
      next
        case (Cons n rest)
        with Some \<open>graphData = Some g\<close> assms
        have "apiGraph g (n # rest) predictions = Inr (Rendered ns es)"
          by (simp add: GraphViewer_def)
        then show ?thesis by (rule apiGraph_nonempty)
      qed
    qed
  qed
qed

lemma nothing_to_draw:
  assumes "fetchedNodes graphData = []" and "rankedPredictions predictions = []"
  shows "GraphViewer graphData predictions = Inr EmptyState"
  using assms
  by (auto simp: GraphViewer_def fallbackOrEmpty_def fetchedNodes_def rankedPredictions_def
      listOr_def split: option.splits list.splits)

text \<open>Claim C4 as amended: a graph with no node never reaches the layout. With no fetched
  node and no prediction the component shows its placeholder, and nothing is thrown; and
  every node list the component hands to \<^verbatim>\<open>renderGraph\<close>, which passes it to
  \<^verbatim>\<open>calculateNodePositions\<close>, has at least one node.\<close>

theorem no_nodes_never_laid_out:
  "(fetchedNodes graphData = [] \<and> rankedPredictions predictions = []
      \<longrightarrow> GraphViewer graphData predictions = Inr EmptyState)
   \<and> (\<forall>ns es. GraphViewer graphData predictions = Inr (Rendered ns es) \<longrightarrow> ns \<noteq> [])"
  using nothing_to_draw [of graphData predictions] rendered_nonempty [of graphData predictions]
  by blast

theorem no_nodes_never_laid_out_witness:
  "fetchedNodes None = [] \<and> rankedPredictions None = []
   \<and> GraphViewer None None = Inr EmptyState
   \<and> GraphViewer None (Some c1_prediction) = Inr (Rendered c1_nodes c1_edges)
   \<and> c1_nodes \<noteq> []"
proof -
  have a: "fetchedNodes None = [] \<and> rankedPredictions None = []"
    by (simp add: fetchedNodes_def rankedPredictions_def)
  from no_nodes_never_laid_out [of None None] a
  have e: "GraphViewer None None = Inr EmptyState" by blast
  from no_nodes_never_laid_out [of None "Some c1_prediction"] c1_example_value
  have "c1_nodes \<noteq> []" by blast
  with a e c1_example_value show ?thesis by simp
qed

end
